theory Spec2Isabelle
  imports Main "HOL-Library.Word" "HOL-Library.Char_ord" "HOL-Library.List_Lexorder"
begin

section \<open>Strings, bytes and runes\<close>

text \<open>
  A Go string is a sequence of bytes; \<^typ>\<open>string\<close> is a list of 8-bit characters, so
  the two coincide.  Where the source walks a string rune by rune (\<^verbatim>\<open>for _, ch := range text\<close>)
  or calls a library function that does (\<^verbatim>\<open>strings.TrimSpace\<close>, \<^verbatim>\<open>%q\<close>, the width of
  \<^verbatim>\<open>%5s\<close>), the model decodes UTF-8 the way package \<^verbatim>\<open>unicode/utf8\<close> does: an invalid or
  truncated sequence yields the rune \<^verbatim>\<open>U+FFFD\<close> and consumes one byte.
\<close>

type_synonym rune = nat

definition ord :: "char \<Rightarrow> nat" where
  "ord c = of_char c"

definition RuneError :: rune where
  "RuneError = 0xFFFD"

definition RuneSelf :: nat where
  "RuneSelf = 0x80"

definition cont :: "nat \<Rightarrow> bool" where
  "cont b \<longleftrightarrow> 0x80 \<le> b \<and> b \<le> 0xBF"

definition second_lo :: "nat \<Rightarrow> nat" where
  "second_lo b0 = (if b0 = 0xE0 then 0xA0 else if b0 = 0xF0 then 0x90 else 0x80)"

definition second_hi :: "nat \<Rightarrow> nat" where
  "second_hi b0 = (if b0 = 0xED then 0x9F else if b0 = 0xF4 then 0x8F else 0xBF)"

text \<open>\<^verbatim>\<open>utf8.DecodeRuneInString\<close>: the first rune of the string and its width in bytes.\<close>

fun DecodeRuneInString :: "string \<Rightarrow> rune \<times> nat" where
  "DecodeRuneInString [] = (RuneError, 0)"
| "DecodeRuneInString (c # cs) =
    (let b0 = ord c in
     if b0 < RuneSelf then (b0, 1)
     else if 0xC2 \<le> b0 \<and> b0 \<le> 0xDF then
       (case cs of
          c1 # _ \<Rightarrow>
            if cont (ord c1) then ((b0 - 0xC0) * 64 + (ord c1 - 0x80), 2)
            else (RuneError, 1)
        | _ \<Rightarrow> (RuneError, 1))
     else if 0xE0 \<le> b0 \<and> b0 \<le> 0xEF then
       (case cs of
          c1 # c2 # _ \<Rightarrow>
            if second_lo b0 \<le> ord c1 \<and> ord c1 \<le> second_hi b0 \<and> cont (ord c2)
            then (((b0 - 0xE0) * 64 + (ord c1 - 0x80)) * 64 + (ord c2 - 0x80), 3)
            else (RuneError, 1)
        | _ \<Rightarrow> (RuneError, 1))
     else if 0xF0 \<le> b0 \<and> b0 \<le> 0xF4 then
       (case cs of
          c1 # c2 # c3 # _ \<Rightarrow>
            if second_lo b0 \<le> ord c1 \<and> ord c1 \<le> second_hi b0 \<and> cont (ord c2) \<and> cont (ord c3)
            then ((((b0 - 0xF0) * 64 + (ord c1 - 0x80)) * 64 + (ord c2 - 0x80)) * 64
                    + (ord c3 - 0x80), 4)
            else (RuneError, 1)
        | _ \<Rightarrow> (RuneError, 1))
     else (RuneError, 1))"

text \<open>The runes a \<^verbatim>\<open>range\<close> loop over the string visits, in order.\<close>

fun runes :: "string \<Rightarrow> rune list" where
  "runes [] = []"
| "runes (c # cs) =
    (case DecodeRuneInString (c # cs) of (r, w) \<Rightarrow> r # runes (drop (w - 1) cs))"

definition RuneCountInString :: "string \<Rightarrow> nat" where
  "RuneCountInString s = length (runes s)"

text \<open>
  \<^verbatim>\<open>utf8.DecodeLastRuneInString\<close>: the last rune and its width.  It looks back over at most
  three more bytes for a byte that can start a rune, decodes forward from there, and
  accepts the result only when it ends exactly at the end of the string.
\<close>

definition RuneStart :: "nat \<Rightarrow> bool" where
  "RuneStart b \<longleftrightarrow> \<not> cont b"

definition DecodeLastRuneInString :: "string \<Rightarrow> rune \<times> nat" where
  "DecodeLastRuneInString s =
    (case rev s of
       [] \<Rightarrow> (RuneError, 0)
     | c # front \<Rightarrow>
         if ord c < RuneSelf then (ord c, 1)
         else
           (case find (\<lambda>d. RuneStart (ord (front ! (d - 2))))
                   (filter (\<lambda>d. d \<le> length s) [2, 3, 4]) of
              None \<Rightarrow> (RuneError, 1)
            | Some d \<Rightarrow>
                (case DecodeRuneInString (drop (length s - d) s) of
                   (r, w) \<Rightarrow> if w = d then (r, w) else (RuneError, 1))))"

text \<open>\<^verbatim>\<open>unicode.IsSpace\<close>: the Latin-1 spaces and the code points with property White_Space.\<close>

definition IsSpace :: "rune \<Rightarrow> bool" where
  "IsSpace r \<longleftrightarrow>
     (if r \<le> 0xFF then r \<in> {0x09, 0x0A, 0x0B, 0x0C, 0x0D, 0x20, 0x85, 0xA0}
      else r = 0x1680 \<or> (0x2000 \<le> r \<and> r \<le> 0x200A) \<or> r = 0x2028 \<or> r = 0x2029
           \<or> r = 0x202F \<or> r = 0x205F \<or> r = 0x3000)"

text \<open>
  \<^verbatim>\<open>strings.TrimSpace\<close>, that is \<^verbatim>\<open>TrimRightFunc(TrimLeftFunc(s, unicode.IsSpace), unicode.IsSpace)\<close>.
\<close>

fun TrimLeftSpace :: "string \<Rightarrow> string" where
  "TrimLeftSpace [] = []"
| "TrimLeftSpace (c # cs) =
    (case DecodeRuneInString (c # cs) of
       (r, w) \<Rightarrow> if IsSpace r then TrimLeftSpace (drop (w - 1) cs) else c # cs)"

function TrimRightSpace :: "string \<Rightarrow> string" where
  "TrimRightSpace s =
    (if s = [] then []
     else (case DecodeLastRuneInString s of
             (r, w) \<Rightarrow> if IsSpace r then TrimRightSpace (take (length s - Suc (w - 1)) s) else s))"
  by pat_completeness auto
termination
  by (relation "measure length") auto

declare TrimRightSpace.simps [simp del]

definition TrimSpace :: "string \<Rightarrow> string" where
  "TrimSpace s = TrimRightSpace (TrimLeftSpace s)"

section \<open>Library formatting\<close>

definition nl :: char where
  "nl = CHR 0x0A"

definition dquote :: char where
  "dquote = CHR 0x22"

definition backslash :: char where
  "backslash = CHR 0x5C"

definition sp :: char where
  "sp = CHR 0x20"

text \<open>Decimal digits of a natural number, and \<^verbatim>\<open>%d\<close> of an integer.\<close>

function digits :: "nat \<Rightarrow> string" where
  "digits n =
    (if n < 10 then [char_of (ord CHR ''0'' + n)]
     else digits (n div 10) @ [char_of (ord CHR ''0'' + n mod 10)])"
  by pat_completeness auto
termination
  by (relation "measure id") auto

declare digits.simps [simp del]

definition Itoa :: "int \<Rightarrow> string" where
  "Itoa i = (if i < 0 then CHR ''-'' # digits (nat (- i)) else digits (nat i))"

text \<open>
  \<^verbatim>\<open>%04d\<close>: zero padding to width four, the sign counted in the width.
\<close>

definition zpad :: "nat \<Rightarrow> string \<Rightarrow> string" where
  "zpad w ds = replicate (w - length ds) CHR ''0'' @ ds"

definition fmt_04d :: "int \<Rightarrow> string" where
  "fmt_04d i =
    (if i < 0 then CHR ''-'' # zpad 3 (digits (nat (- i))) else zpad 4 (digits (nat i)))"

text \<open>
  \<^verbatim>\<open>%+5s\<close> and friends: padding on the left with spaces up to a width counted in runes
  (the flag \<^verbatim>\<open>+\<close> has no effect on \<^verbatim>\<open>%s\<close>); \<^verbatim>\<open>%-Ns\<close> pads on the right.
\<close>

definition padLeft :: "nat \<Rightarrow> string \<Rightarrow> string" where
  "padLeft w s = replicate (w - RuneCountInString s) sp @ s"

definition padRight :: "nat \<Rightarrow> string \<Rightarrow> string" where
  "padRight w s = s @ replicate (w - RuneCountInString s) sp"

text \<open>
  \<^verbatim>\<open>fmt.Sprintf(fmt.Sprintf("%%-%ds", n), s)\<close> for \<open>n \<noteq> 0\<close>.  A negative \<open>n\<close> repeats the
  flag \<^verbatim>\<open>-\<close> and gives the width \<open>|n|\<close>.  Package \<^verbatim>\<open>fmt\<close> gives up on a width once the
  digits read so far exceed \<open>10\<^sup>6\<close>: the directive then has no verb and the operand is
  reported as extra.
\<close>

definition Sprintf_pad :: "int \<Rightarrow> string \<Rightarrow> string" where
  "Sprintf_pad n s =
    (if \<bar>n\<bar> div 10 > 1000000 then ''%!(NOVERB)%!(EXTRA string='' @ s @ '')''
     else padRight (nat \<bar>n\<bar>) s)"

text \<open>
  \<^verbatim>\<open>strings.ToUpper\<close> on an ASCII string maps exactly the bytes \<^verbatim>\<open>a\<close> to \<^verbatim>\<open>z\<close>.  The
  source applies it to level names only, which are ASCII.
\<close>

definition ToUpper :: "string \<Rightarrow> string" where
  "ToUpper s =
    map (\<lambda>c. if ord CHR ''a'' \<le> ord c \<and> ord c \<le> ord CHR ''z'' then char_of (ord c - 32) else c) s"

text \<open>
  \<^verbatim>\<open>strings.Replace(s, "\n", new, -1)\<close>: every newline byte replaced.
\<close>

definition ReplaceNewlines :: "string \<Rightarrow> string \<Rightarrow> string" where
  "ReplaceNewlines s new = concat (map (\<lambda>c. if c = nl then new else [c]) s)"

text \<open>Hexadecimal digits, lower case, most significant first.\<close>

fun hexN :: "nat \<Rightarrow> nat \<Rightarrow> string" where
  "hexN 0 n = []"
| "hexN (Suc k) n = hexN k (n div 16) @ [''0123456789abcdef'' ! (n mod 16)]"

section \<open>What the formatter takes from its host\<close>

text \<open>
  The packages the source imports are not part of it.  What it reads from them and what
  no definition here can compute is a field of the record \<open>host\<close>: the two values the
  source's \<^verbatim>\<open>init\<close> caches, the clock, the layout-driven \<^verbatim>\<open>Time.Format\<close>, the frame that
  \<^verbatim>\<open>runtime.Caller(6)\<close> finds, the escape sequences of package \<^verbatim>\<open>ansi\<close>, and the Unicode
  table behind \<^verbatim>\<open>strconv.IsPrint\<close> above \<^verbatim>\<open>U+00FF\<close>.  Every theorem holds for every host.
\<close>

type_synonym Time = int

record host =
  isTerminal :: bool
  GOOS :: string
  since_baseTimestamp :: int
  Time_Format :: "Time \<Rightarrow> string \<Rightarrow> string"
  Caller6 :: "string \<times> string \<times> int"
  ansi_Reset :: string
  ansi_Green :: string
  ansi_Yellow :: string
  ansi_Red :: string
  ansi_Blue :: string
  ansi_Cyan :: string
  ansi_LightBlack :: string
  IsPrint_wide :: "rune \<Rightarrow> bool"

text \<open>\<^verbatim>\<open>const reset = ansi.Reset\<close>\<close>

definition reset :: "host \<Rightarrow> string" where
  "reset h = ansi_Reset h"

text \<open>\<^verbatim>\<open>time.Stamp\<close>\<close>

definition time_Stamp :: string where
  "time_Stamp = ''Jan _2 15:04:05''"

text \<open>Go's integer division truncates towards zero.\<close>

definition quot :: "int \<Rightarrow> int \<Rightarrow> int" where
  "quot a b = sgn a * sgn b * (\<bar>a\<bar> div \<bar>b\<bar>)"

text \<open>\<^verbatim>\<open>func miniTS() int\<close>: whole seconds since \<^verbatim>\<open>baseTimestamp\<close>; a duration counts nanoseconds.\<close>

definition miniTS :: "host \<Rightarrow> int" where
  "miniTS h = quot (since_baseTimestamp h) 1000000000"

subsection \<open>Quoting\<close>

definition IsPrint :: "host \<Rightarrow> rune \<Rightarrow> bool" where
  "IsPrint h r \<longleftrightarrow>
     (if r \<le> 0xFF then (0x20 \<le> r \<and> r \<le> 0x7E) \<or> (0xA1 \<le> r \<and> r \<le> 0xFF \<and> r \<noteq> 0xAD)
      else IsPrint_wide h r)"

definition ValidRune :: "rune \<Rightarrow> bool" where
  "ValidRune r \<longleftrightarrow> r < 0xD800 \<or> (0xDFFF < r \<and> r \<le> 0x10FFFF)"

text \<open>
  \<^verbatim>\<open>strconv.appendEscapedRune\<close> for the quote \<^verbatim>\<open>"\<close>; \<open>bs\<close> are the bytes the rune was
  decoded from, which is what encoding a printable rune again gives.
\<close>

definition appendEscapedRune :: "host \<Rightarrow> string \<Rightarrow> rune \<Rightarrow> string" where
  "appendEscapedRune h bs r =
    (if r = ord dquote \<or> r = ord backslash then [backslash, char_of r]
     else if IsPrint h r then bs
     else if r = 0x07 then [backslash, CHR ''a'']
     else if r = 0x08 then [backslash, CHR ''b'']
     else if r = 0x0C then [backslash, CHR ''f'']
     else if r = 0x0A then [backslash, CHR ''n'']
     else if r = 0x0D then [backslash, CHR ''r'']
     else if r = 0x09 then [backslash, CHR ''t'']
     else if r = 0x0B then [backslash, CHR ''v'']
     else if r < 0x20 \<or> r = 0x7F then [backslash, CHR ''x''] @ hexN 2 r
     else if \<not> ValidRune r then [backslash, CHR ''u''] @ hexN 4 RuneError
     else if r < 0x10000 then [backslash, CHR ''u''] @ hexN 4 r
     else [backslash, CHR ''U''] @ hexN 8 r)"

fun Quote_body :: "host \<Rightarrow> string \<Rightarrow> string" where
  "Quote_body h [] = []"
| "Quote_body h (c # cs) =
    (case DecodeRuneInString (c # cs) of
       (r, w) \<Rightarrow>
         (if w = 1 \<and> r = RuneError then [backslash, CHR ''x''] @ hexN 2 (ord c)
          else appendEscapedRune h (take w (c # cs)) r)
         @ Quote_body h (drop (w - 1) cs))"

text \<open>\<^verbatim>\<open>strconv.Quote\<close>, which is what \<^verbatim>\<open>%q\<close> prints for a string.\<close>

definition Quote :: "host \<Rightarrow> string \<Rightarrow> string" where
  "Quote h s = dquote # Quote_body h s @ [dquote]"

section \<open>The data model\<close>

text \<open>
  A field value is an \<^verbatim>\<open>interface{}\<close>.  The source distinguishes strings, errors and the
  rest.  The method \<^verbatim>\<open>Error()\<close> of an error either returns a text, and then the error is
  \<open>VError\<close> of that text, or it panics, as the method of a nil pointer does when it reads a
  field of its receiver; then the error is \<open>VErrorPanics\<close> of what package \<^verbatim>\<open>fmt\<close>, which
  recovers from such a panic, prints in its place (\<^verbatim>\<open><nil>\<close> for a nil pointer).  For a value
  of any other type the model keeps what package \<^verbatim>\<open>fmt\<close> prints for it under \<^verbatim>\<open>%v\<close> and under
  \<^verbatim>\<open>%+v\<close>.
\<close>

datatype fieldval =
    VNil
  | VString string
  | VError string
  | VErrorPanics string
  | VInt int
  | VBool bool
  | VOther string string

text \<open>\<^verbatim>\<open>fmt.Sprint(v)\<close> and \<^verbatim>\<open>fmt.Sprintf("%+v", v)\<close> of one operand.\<close>

fun Sprint :: "fieldval \<Rightarrow> string" where
  "Sprint VNil = ''<nil>''"
| "Sprint (VString s) = s"
| "Sprint (VError m) = m"
| "Sprint (VErrorPanics recovered) = recovered"
| "Sprint (VInt i) = Itoa i"
| "Sprint (VBool b) = (if b then ''true'' else ''false'')"
| "Sprint (VOther v pv) = v"

fun Sprintf_plus_v :: "fieldval \<Rightarrow> string" where
  "Sprintf_plus_v (VOther v pv) = pv"
| "Sprintf_plus_v x = Sprint x"

text \<open>
  \<^verbatim>\<open>logrus.Level\<close> is a \<^verbatim>\<open>uint8\<close>; the six named levels and their names are those of
  the host library, any other number is \<^verbatim>\<open>unknown\<close>.
\<close>

type_synonym Level = "8 word"

definition PanicLevel :: Level where "PanicLevel = 0"
definition FatalLevel :: Level where "FatalLevel = 1"
definition ErrorLevel :: Level where "ErrorLevel = 2"
definition WarnLevel :: Level where "WarnLevel = 3"
definition InfoLevel :: Level where "InfoLevel = 4"
definition DebugLevel :: Level where "DebugLevel = 5"

definition Level_String :: "Level \<Rightarrow> string" where
  "Level_String level =
    (if level = DebugLevel then ''debug''
     else if level = InfoLevel then ''info''
     else if level = WarnLevel then ''warning''
     else if level = ErrorLevel then ''error''
     else if level = FatalLevel then ''fatal''
     else if level = PanicLevel then ''panic''
     else ''unknown'')"

text \<open>
  \<^verbatim>\<open>logrus.Fields\<close> is a Go map from strings to values: a partial function.  A Go map has
  no order of its own.
\<close>

type_synonym Fields = "string \<rightharpoonup> fieldval"

record Entry =
  Data :: Fields
  Time :: Time
  Level :: Level
  Message :: string

record TextFormatter =
  ForceColors :: bool
  DisableColors :: bool
  DisableTimestamp :: bool
  ShortTimestamp :: bool
  DisableSorting :: bool
  IndentMultilineMessage :: bool
  TimestampFormat :: string
  SpacePadding :: int

text \<open>
  Reading a key a Go map does not hold gives the zero value, the nil interface.
\<close>

definition index :: "Fields \<Rightarrow> string \<Rightarrow> fieldval" where
  "index data k = (case data k of None \<Rightarrow> VNil | Some v \<Rightarrow> v)"

text \<open>
  \<^verbatim>\<open>for k := range entry.Data\<close> visits every key once, in an order the language leaves
  open and that may change from one loop to the next.  The order of one loop is an
  argument of the model; \<open>rangeOrder data ks\<close> says that \<open>ks\<close> is an order the loop can take.
\<close>

definition rangeOrder :: "Fields \<Rightarrow> string list \<Rightarrow> bool" where
  "rangeOrder data ks \<longleftrightarrow> distinct ks \<and> set ks = dom data"

section \<open>The formatter\<close>

subsection \<open>\<^verbatim>\<open>needsQuoting\<close>\<close>

text \<open>
  The loop returns \<^verbatim>\<open>false\<close> at the first rune outside the letters, digits, \<^verbatim>\<open>-\<close> and
  \<^verbatim>\<open>.\<close>, and \<^verbatim>\<open>true\<close> when there is none.
\<close>

fun needsQuoting_loop :: "rune list \<Rightarrow> bool" where
  "needsQuoting_loop [] = True"
| "needsQuoting_loop (ch # rest) =
    (if \<not> ((ch \<ge> ord CHR ''a'' \<and> ch \<le> ord CHR ''z'') \<or>
            (ch \<ge> ord CHR ''A'' \<and> ch \<le> ord CHR ''Z'') \<or>
            (ch \<ge> ord CHR ''0'' \<and> ch \<le> ord CHR ''9'') \<or>
            ch = ord CHR ''-'' \<or> ch = ord CHR ''.'')
     then False
     else needsQuoting_loop rest)"

definition needsQuoting :: "string \<Rightarrow> bool" where
  "needsQuoting text = needsQuoting_loop (runes text)"

subsection \<open>\<^verbatim>\<open>extractPrefix\<close>\<close>

text \<open>
  The regular expression \<^verbatim>\<open>^\[(.*?)\]\<close>: an opening bracket at the start, then as few
  characters other than newline as possible, then a closing bracket.  \<open>upto_close\<close> is
  the group, \<open>regex_FindString\<close> the whole match, \<open>None\<close> when there is none.
\<close>

fun upto_close :: "string \<Rightarrow> string option" where
  "upto_close [] = None"
| "upto_close (c # cs) =
    (if c = CHR '']'' then Some []
     else if c = nl then None
     else map_option ((#) c) (upto_close cs))"

definition regex_FindString :: "string \<Rightarrow> string option" where
  "regex_FindString msg =
    (case msg of
       [] \<Rightarrow> None
     | c # cs \<Rightarrow>
         if c = CHR ''['' then map_option (\<lambda>g. CHR ''['' # g @ '']'') (upto_close cs)
         else None)"

definition extractPrefix :: "string \<Rightarrow> string \<times> string" where
  "extractPrefix msg =
    (case regex_FindString msg of
       None \<Rightarrow> ([], msg)
     | Some match \<Rightarrow>
         (drop 1 (take (length match - 1) match), TrimSpace (drop (length match) msg)))"

subsection \<open>\<^verbatim>\<open>appendKeyValue\<close>\<close>

text \<open>
  A call either returns or panics.  \<^verbatim>\<open>strings.Repeat\<close> panics on a negative count.
  \<^verbatim>\<open>appendKeyValue\<close> calls \<^verbatim>\<open>value.Error()\<close> itself, so a panic of that method is a panic of
  \<^verbatim>\<open>appendKeyValue\<close>; nothing in the source recovers from a panic.
\<close>

datatype panic = Repeat_negative_count | Error_method_panic

definition appendKeyValue :: "host \<Rightarrow> string \<Rightarrow> string \<Rightarrow> fieldval \<Rightarrow> panic + string" where
  "appendKeyValue h b key val =
    (let b = b @ key;
         b = b @ ''='';
         r = (case val of
                VString s \<Rightarrow> Inr (if needsQuoting s then b @ s else b @ Quote h s)
              | VError errmsg \<Rightarrow>
                  Inr (if needsQuoting errmsg then b @ errmsg else b @ Quote h errmsg)
              | VErrorPanics recovered \<Rightarrow> Inl Error_method_panic
              | _ \<Rightarrow> Inr (b @ Sprint val))
     in case r of
          Inl p \<Rightarrow> Inl p
        | Inr b \<Rightarrow> Inr (b @ '' ''))"

text \<open>The loop \<^verbatim>\<open>for _, key := range keys\<close> of \<^verbatim>\<open>Format\<close>, which ends at the first panic.\<close>

fun appendKeyValues :: "host \<Rightarrow> string \<Rightarrow> Fields \<Rightarrow> string list \<Rightarrow> panic + string" where
  "appendKeyValues h b data [] = Inr b"
| "appendKeyValues h b data (key # keys) =
    (case appendKeyValue h b key (index data key) of
       Inl p \<Rightarrow> Inl p
     | Inr b \<Rightarrow> appendKeyValues h b data keys)"

subsection \<open>\<^verbatim>\<open>prefixFieldClashes\<close>\<close>

definition prefixFieldClashes :: "Fields \<Rightarrow> Fields" where
  "prefixFieldClashes data =
    (let data = (if data ''time'' \<noteq> None then data(''fields.time'' := data ''time'') else data);
         data = (if data ''msg'' \<noteq> None then data(''fields.msg'' := data ''msg'') else data);
         data = (if data ''level'' \<noteq> None then data(''fields.level'' := data ''level'') else data)
     in data)"

subsection \<open>\<^verbatim>\<open>printColored\<close>\<close>

definition Repeat :: "string \<Rightarrow> int \<Rightarrow> panic + string" where
  "Repeat s count =
    (if count < 0 then Inl Repeat_negative_count else Inr (concat (replicate (nat count) s)))"

text \<open>
  The writer is a byte buffer: the model takes what has been written so far and returns
  it extended.  \<^verbatim>\<open>fmt.Fprintf\<close> returns the number of bytes it wrote.
\<close>

definition printColored ::
  "host \<Rightarrow> TextFormatter \<Rightarrow> string \<Rightarrow> Entry \<Rightarrow> string list \<Rightarrow> string \<Rightarrow> panic + string" where
  "printColored h f wr entry keys timestampFormat =
    (let (levelColor, debugInf) =
           (if Level entry = InfoLevel then (ansi_Green h, [])
            else if Level entry = WarnLevel then (ansi_Yellow h, [])
            else if Level entry = ErrorLevel \<or> Level entry = FatalLevel \<or> Level entry = PanicLevel
              then (ansi_Red h, [])
            else if Level entry = DebugLevel then
              (case Caller6 h of
                 (callername, file, line) \<Rightarrow>
                   (ansi_Blue h,
                    '' ['' @ callername @ '']['' @ file @ '']['' @ Itoa line @ '']''))
            else (ansi_Blue h, []));
         levelText =
           (if Level entry \<noteq> WarnLevel then ToUpper (Level_String (Level entry)) else ''WARN'');
         (prefix, message) =
           (case Data entry ''prefix'' of
              Some pfx \<Rightarrow>
                ('' '' @ ansi_Cyan h @ Sprint pfx @ '':'' @ reset h, Message entry)
            | None \<Rightarrow>
                (case extractPrefix (Message entry) of
                   (pfx, trimmed) \<Rightarrow>
                     if length pfx > 0 then ('' '' @ ansi_Cyan h @ pfx @ '':'' @ reset h, trimmed)
                     else ([], Message entry)));
         messageFormat =
           (\<lambda>s. if SpacePadding f \<noteq> 0 then Sprintf_pad (SpacePadding f) s else s);
         header =
           (if DisableTimestamp f then
              ansi_LightBlack h @ reset h @ '' '' @ levelColor @ padLeft 5 levelText @ reset h
                @ debugInf @ prefix @ '' ''
            else if ShortTimestamp f then
              ansi_LightBlack h @ ''['' @ fmt_04d (miniTS h) @ '']'' @ reset h @ '' '' @ levelColor
                @ padLeft 5 levelText @ reset h @ debugInf @ prefix @ '' ''
            else
              ansi_LightBlack h @ ''['' @ Time_Format h (Time entry) timestampFormat @ '']''
                @ reset h @ '' '' @ levelColor @ padLeft 5 levelText @ reset h @ debugInf
                @ prefix @ '' '');
         padlen = int (length header);
         wr = wr @ header;
         fields = concat (map (\<lambda>k. '' '' @ levelColor @ k @ reset h @ ''=''
                                      @ Sprintf_plus_v (index (Data entry) k)) keys)
     in if IndentMultilineMessage f \<and> nl \<in> set message then
          (let padlen = padlen - (int (length (ansi_LightBlack h)) + int (length levelColor)
                                    + 2 * int (length (reset h)));
               padlen = (if prefix \<noteq> [] then padlen - (int (length (ansi_Cyan h))
                                                        + int (length (reset h)))
                         else padlen)
           in case Repeat '' '' padlen of
                Inl p \<Rightarrow> Inl p
              | Inr pad \<Rightarrow> Inr (wr @ messageFormat (ReplaceNewlines message (nl # pad)) @ fields))
        else Inr (wr @ messageFormat message @ fields))"

subsection \<open>\<^verbatim>\<open>Format\<close>\<close>

text \<open>
  \<^verbatim>\<open>Format\<close> returns the bytes and an error, and leaves the entry's map changed by
  \<^verbatim>\<open>prefixFieldClashes\<close>.  The model returns the pair and the entry after the call, or
  the panic that ends the call.  \<open>ks\<close> is the order in which the loop over the map visits
  the keys.
\<close>

type_synonym error = string

definition Format ::
  "host \<Rightarrow> TextFormatter \<Rightarrow> Entry \<Rightarrow> string list
     \<Rightarrow> panic + ((string \<times> error option) \<times> Entry)" where
  "Format h f entry ks =
    (let keys = filter (\<lambda>k. k \<noteq> ''prefix'') ks;
         keys = (if \<not> DisableSorting f then sort keys else keys);
         b = [];
         entry = entry\<lparr>Data := prefixFieldClashes (Data entry)\<rparr>;
         isColorTerminal = (isTerminal h \<and> GOOS h \<noteq> ''windows'');
         isColored = ((ForceColors f \<or> isColorTerminal) \<and> \<not> DisableColors f);
         timestampFormat = TimestampFormat f;
         timestampFormat = (if timestampFormat = [] then time_Stamp else timestampFormat);
         r = (if isColored then printColored h f b entry keys timestampFormat
              else
                (case (if \<not> DisableTimestamp f
                       then appendKeyValue h b ''time''
                              (VString (Time_Format h (Time entry) timestampFormat))
                       else Inr b) of
                   Inl p \<Rightarrow> Inl p
                 | Inr b \<Rightarrow>
                (case appendKeyValue h b ''level'' (VString (Level_String (Level entry))) of
                   Inl p \<Rightarrow> Inl p
                 | Inr b \<Rightarrow>
                (case (if Message entry \<noteq> []
                       then appendKeyValue h b ''msg'' (VString (Message entry))
                       else Inr b) of
                   Inl p \<Rightarrow> Inl p
                 | Inr b \<Rightarrow> appendKeyValues h b (Data entry) keys))))
     in case r of
          Inl p \<Rightarrow> Inl p
        | Inr b \<Rightarrow> Inr ((b @ [nl], None), entry))"

section \<open>Descriptions used in the statements\<close>

text \<open>
  The definitions of this section are not translations of source functions.  They say,
  in the words of the specification, what a line looks like; the theorems compare them
  with the functions above.
\<close>

text \<open>A byte that is an ASCII letter, an ASCII digit, \<^verbatim>\<open>-\<close> or \<^verbatim>\<open>.\<close>.\<close>

definition plainChar :: "char \<Rightarrow> bool" where
  "plainChar c \<longleftrightarrow>
     (ord CHR ''a'' \<le> ord c \<and> ord c \<le> ord CHR ''z'') \<or>
     (ord CHR ''A'' \<le> ord c \<and> ord c \<le> ord CHR ''Z'') \<or>
     (ord CHR ''0'' \<le> ord c \<and> ord c \<le> ord CHR ''9'') \<or>
     c = CHR ''-'' \<or> c = CHR ''.''"

text \<open>The text of a value in a line without colors, for a value that has one.\<close>

definition valueText :: "host \<Rightarrow> fieldval \<Rightarrow> string" where
  "valueText h val =
    (case val of
       VString s \<Rightarrow> if needsQuoting s then s else Quote h s
     | VError errmsg \<Rightarrow> if needsQuoting errmsg then errmsg else Quote h errmsg
     | _ \<Rightarrow> Sprint val)"

text \<open>A value that is an error whose method \<^verbatim>\<open>Error()\<close> panics.\<close>

definition Error_panics :: "fieldval \<Rightarrow> bool" where
  "Error_panics val = (case val of VErrorPanics recovered \<Rightarrow> True | _ \<Rightarrow> False)"

text \<open>The keys that are rendered as fields, in the order of rendering.\<close>

definition rendered_keys :: "TextFormatter \<Rightarrow> string list \<Rightarrow> string list" where
  "rendered_keys f ks =
    (if DisableSorting f then filter (\<lambda>k. k \<noteq> ''prefix'') ks
     else sort (filter (\<lambda>k. k \<noteq> ''prefix'') ks))"

text \<open>The layout in effect: the configured one, or \<^verbatim>\<open>time.Stamp\<close> when none is configured.\<close>

definition layout :: "TextFormatter \<Rightarrow> string" where
  "layout f = (if TimestampFormat f = [] then time_Stamp else TimestampFormat f)"

text \<open>Whether a call takes the colored path.\<close>

definition isColored :: "host \<Rightarrow> TextFormatter \<Rightarrow> bool" where
  "isColored h f \<longleftrightarrow>
     (ForceColors f \<or> (isTerminal h \<and> GOOS h \<noteq> ''windows'')) \<and> \<not> DisableColors f"

text \<open>The entry as a call of \<^verbatim>\<open>Format\<close> leaves it.\<close>

definition after_Format :: "Entry \<Rightarrow> Entry" where
  "after_Format entry = entry\<lparr>Data := prefixFieldClashes (Data entry)\<rparr>"

text \<open>
  The calls that panic: those that take the path without colors and, under a key other
  than \<^verbatim>\<open>prefix\<close> that the loop over the map visits, find an error whose method \<^verbatim>\<open>Error()\<close>
  panics.
\<close>

definition fields_panic :: "Fields \<Rightarrow> string list \<Rightarrow> bool" where
  "fields_panic data keys \<longleftrightarrow> (\<exists>k \<in> set keys. Error_panics (index data k))"

definition Format_panics :: "host \<Rightarrow> TextFormatter \<Rightarrow> Entry \<Rightarrow> string list \<Rightarrow> bool" where
  "Format_panics h f entry ks \<longleftrightarrow>
     \<not> isColored h f
     \<and> (\<exists>k \<in> set ks. k \<noteq> ''prefix'' \<and> Error_panics (index (prefixFieldClashes (Data entry)) k))"

text \<open>
  The line without colors: \<^verbatim>\<open>time=<value> level=<value> msg=<value> key=<value> ...\<close>, every
  item followed by one space.
\<close>

definition plain_fields :: "host \<Rightarrow> Fields \<Rightarrow> string list \<Rightarrow> string" where
  "plain_fields h data keys = concat (map (\<lambda>k. k @ ''='' @ valueText h (index data k) @ '' '') keys)"

definition plain_line :: "host \<Rightarrow> TextFormatter \<Rightarrow> Entry \<Rightarrow> string list \<Rightarrow> string" where
  "plain_line h f entry keys =
     (if DisableTimestamp f then []
      else ''time='' @ valueText h (VString (Time_Format h (Time entry) (layout f))) @ '' '')
     @ ''level='' @ valueText h (VString (Level_String (Level entry))) @ '' ''
     @ (if Message entry = [] then []
        else ''msg='' @ valueText h (VString (Message entry)) @ '' '')
     @ plain_fields h (Data entry) keys"

text \<open>
  The colored line.  Its header is a dim marker, the bracketed timestamp, the level label
  in the color of the level, the diagnostic of a debug entry, and the prefix tag;
  \<open>visible_header\<close> is the header without the color sequences.
\<close>

definition levelColor :: "host \<Rightarrow> Level \<Rightarrow> string" where
  "levelColor h l =
    (if l = InfoLevel then ansi_Green h
     else if l = WarnLevel then ansi_Yellow h
     else if l = ErrorLevel \<or> l = FatalLevel \<or> l = PanicLevel then ansi_Red h
     else ansi_Blue h)"

definition debugInf :: "host \<Rightarrow> Level \<Rightarrow> string" where
  "debugInf h l =
    (if l = DebugLevel then
       (case Caller6 h of
          (callername, file, line) \<Rightarrow>
            '' ['' @ callername @ '']['' @ file @ '']['' @ Itoa line @ '']'')
     else [])"

definition levelText :: "Level \<Rightarrow> string" where
  "levelText l = (if l = WarnLevel then ''WARN'' else ToUpper (Level_String l))"

definition timestampBlock :: "host \<Rightarrow> TextFormatter \<Rightarrow> Entry \<Rightarrow> string \<Rightarrow> string" where
  "timestampBlock h f entry timestampFormat =
    (if DisableTimestamp f then []
     else if ShortTimestamp f then ''['' @ fmt_04d (miniTS h) @ '']''
     else ''['' @ Time_Format h (Time entry) timestampFormat @ '']'')"

definition prefixTag :: "host \<Rightarrow> string option \<Rightarrow> string" where
  "prefixTag h tag = (case tag of None \<Rightarrow> [] | Some t \<Rightarrow> '' '' @ ansi_Cyan h @ t @ '':'' @ reset h)"

definition colored_header ::
  "host \<Rightarrow> TextFormatter \<Rightarrow> Entry \<Rightarrow> string \<Rightarrow> string option \<Rightarrow> string" where
  "colored_header h f entry timestampFormat tag =
     ansi_LightBlack h @ timestampBlock h f entry timestampFormat @ reset h @ '' ''
     @ levelColor h (Level entry) @ padLeft 5 (levelText (Level entry)) @ reset h
     @ debugInf h (Level entry) @ prefixTag h tag @ '' ''"

definition visible_header ::
  "host \<Rightarrow> TextFormatter \<Rightarrow> Entry \<Rightarrow> string \<Rightarrow> string option \<Rightarrow> string" where
  "visible_header h f entry timestampFormat tag =
     timestampBlock h f entry timestampFormat @ '' ''
     @ padLeft 5 (levelText (Level entry))
     @ debugInf h (Level entry) @ (case tag of None \<Rightarrow> [] | Some t \<Rightarrow> '' '' @ t @ '':'') @ '' ''"

text \<open>The bytes of color sequences in the header.\<close>

definition color_bytes :: "host \<Rightarrow> Entry \<Rightarrow> string option \<Rightarrow> nat" where
  "color_bytes h entry tag =
     length (ansi_LightBlack h) + length (levelColor h (Level entry)) + 2 * length (reset h)
     + (case tag of None \<Rightarrow> 0 | Some t \<Rightarrow> length (ansi_Cyan h) + length (reset h))"

text \<open>The lines of a text, and the text of its lines.\<close>

fun splitLines :: "string \<Rightarrow> string list" where
  "splitLines [] = [[]]"
| "splitLines (c # cs) =
    (if c = nl then [] # splitLines cs
     else (case splitLines cs of [] \<Rightarrow> [[c]] | l # ls \<Rightarrow> (c # l) # ls))"

fun joinLines :: "string list \<Rightarrow> string" where
  "joinLines [] = []"
| "joinLines [l] = l"
| "joinLines (l # ls) = l @ nl # joinLines ls"

text \<open>The message as written: padded on the right when \<^verbatim>\<open>SpacePadding\<close> is not zero.\<close>

definition messageFormat :: "TextFormatter \<Rightarrow> string \<Rightarrow> string" where
  "messageFormat f s = (if SpacePadding f \<noteq> 0 then Sprintf_pad (SpacePadding f) s else s)"

definition colored_fields :: "host \<Rightarrow> string \<Rightarrow> Fields \<Rightarrow> string list \<Rightarrow> string" where
  "colored_fields h color data keys =
     concat (map (\<lambda>k. '' '' @ color @ k @ reset h @ ''='' @ Sprintf_plus_v (index data k)) keys)"

text \<open>
  The colored line for a given prefix tag and displayed message: with
  \<^verbatim>\<open>IndentMultilineMessage\<close>, every line of the message after the first begins with as many
  spaces as the visible header is wide.
\<close>

definition colored_line ::
  "host \<Rightarrow> TextFormatter \<Rightarrow> Entry \<Rightarrow> string list \<Rightarrow> string \<Rightarrow> string option \<Rightarrow> string
     \<Rightarrow> string" where
  "colored_line h f entry keys timestampFormat tag message =
     colored_header h f entry timestampFormat tag
     @ messageFormat f
         (if IndentMultilineMessage f
          then joinLines
                 (hd (splitLines message)
                  # map (\<lambda>l. replicate (length (visible_header h f entry timestampFormat tag)) sp @ l)
                        (tl (splitLines message)))
          else message)
     @ colored_fields h (levelColor h (Level entry)) (Data entry) keys"

text \<open>The prefix tag and the displayed message that \<^verbatim>\<open>printColored\<close> settles on.\<close>

definition prefix_and_message :: "Entry \<Rightarrow> string option \<times> string" where
  "prefix_and_message entry =
    (case Data entry ''prefix'' of
       Some pfx \<Rightarrow> (Some (Sprint pfx), Message entry)
     | None \<Rightarrow>
         (case extractPrefix (Message entry) of
            (pfx, trimmed) \<Rightarrow> if pfx \<noteq> [] then (Some pfx, trimmed) else (None, Message entry)))"

text \<open>
  A line is what comes before the fields, then the fields.  Both depend on the path the
  call takes; only the fields depend on the keys.
\<close>

definition line_before_fields :: "host \<Rightarrow> TextFormatter \<Rightarrow> Entry \<Rightarrow> string" where
  "line_before_fields h f entry =
    (if isColored h f
     then colored_line h f entry [] (layout f) (fst (prefix_and_message entry))
            (snd (prefix_and_message entry))
     else plain_line h f entry [])"

definition fields_text :: "host \<Rightarrow> TextFormatter \<Rightarrow> Entry \<Rightarrow> string list \<Rightarrow> string" where
  "fields_text h f entry keys =
    (if isColored h f
     then colored_fields h (levelColor h (Level entry)) (prefixFieldClashes (Data entry)) keys
     else plain_fields h (prefixFieldClashes (Data entry)) keys)"

text \<open>The label of a level as it stands in a colored line.\<close>

definition levelLabel :: "Level \<Rightarrow> string" where
  "levelLabel l =
    (if l = WarnLevel then '' WARN''
     else if l = InfoLevel then '' INFO''
     else if l = DebugLevel then ''DEBUG''
     else if l = ErrorLevel then ''ERROR''
     else if l = FatalLevel then ''FATAL''
     else if l = PanicLevel then ''PANIC''
     else ''UNKNOWN'')"

section \<open>Sample inputs\<close>

text \<open>
  A host, three configurations and a few entries, for the statements at concrete inputs.
  The sample host prints every instant as the stamp of one fixed instant.
\<close>

definition esc :: "string \<Rightarrow> string" where
  "esc code = CHR 0x1B # CHR ''['' # code @ ''m''"

definition sample_host :: host where
  "sample_host =
     \<lparr>isTerminal = False, GOOS = ''linux'', since_baseTimestamp = 5000000000,
      Time_Format = (\<lambda>t l. ''Jan  1 00:00:00''), Caller6 = (''main.main'', ''main.go'', 12),
      ansi_Reset = esc ''0'', ansi_Green = esc ''32'', ansi_Yellow = esc ''33'',
      ansi_Red = esc ''31'', ansi_Blue = esc ''34'', ansi_Cyan = esc ''36'',
      ansi_LightBlack = esc ''90'', IsPrint_wide = (\<lambda>r. True)\<rparr>"

definition plain_config :: TextFormatter where
  "plain_config =
     \<lparr>ForceColors = False, DisableColors = True, DisableTimestamp = False,
      ShortTimestamp = False, DisableSorting = False, IndentMultilineMessage = False,
      TimestampFormat = [], SpacePadding = 0\<rparr>"

definition default_config :: TextFormatter where
  "default_config =
     \<lparr>ForceColors = False, DisableColors = False, DisableTimestamp = False,
      ShortTimestamp = False, DisableSorting = False, IndentMultilineMessage = False,
      TimestampFormat = [], SpacePadding = 0\<rparr>"

definition color_config :: TextFormatter where
  "color_config =
     \<lparr>ForceColors = True, DisableColors = False, DisableTimestamp = False,
      ShortTimestamp = False, DisableSorting = False, IndentMultilineMessage = False,
      TimestampFormat = [], SpacePadding = 0\<rparr>"

definition entry_ab :: Entry where
  "entry_ab =
     \<lparr>Data = [''b'' \<mapsto> VInt 1, ''a'' \<mapsto> VInt 2], Time = 0, Level = InfoLevel,
      Message = ''ready''\<rparr>"

definition entry_clash :: Entry where
  "entry_clash =
     \<lparr>Data = [''time'' \<mapsto> VString ''noon''], Time = 0, Level = InfoLevel,
      Message = ''ready''\<rparr>"

definition entry_worker :: Entry where
  "entry_worker =
     \<lparr>Data = [''prefix'' \<mapsto> VString ''db''], Time = 0, Level = InfoLevel,
      Message = ''[worker] started job''\<rparr>"

definition entry_hello :: Entry where
  "entry_hello =
     \<lparr>Data = [''greeting'' \<mapsto> VString ''hello world''], Time = 0, Level = InfoLevel,
      Message = ''ready''\<rparr>"

definition entry_nil_error :: Entry where
  "entry_nil_error =
     \<lparr>Data = [''err'' \<mapsto> VErrorPanics ''<nil>''], Time = 0, Level = InfoLevel,
      Message = ''ready''\<rparr>"

definition entry_job :: Entry where
  "entry_job =
     \<lparr>Data = Map.empty, Time = 0, Level = InfoLevel, Message = ''[worker] started job''\<rparr>"

definition entry_two_lines :: Entry where
  "entry_two_lines =
     \<lparr>Data = Map.empty, Time = 0, Level = WarnLevel,
      Message = ''[worker] line one'' @ [nl] @ ''line two''\<rparr>"

definition entry_empty_tag :: Entry where
  "entry_empty_tag =
     \<lparr>Data = Map.empty, Time = 0, Level = InfoLevel, Message = ''[] started job''\<rparr>"

definition entry_trailing_space :: Entry where
  "entry_trailing_space =
     \<lparr>Data = Map.empty, Time = 0, Level = InfoLevel, Message = ''[worker] started job ''\<rparr>"

definition entry_broken_tag :: Entry where
  "entry_broken_tag =
     \<lparr>Data = Map.empty, Time = 0, Level = InfoLevel,
      Message = ''[wor'' @ [nl] @ ''ker] started job''\<rparr>"

section \<open>Properties of the library models\<close>

subsection \<open>The decoder\<close>

text \<open>
  A byte below \<^verbatim>\<open>0x80\<close> is a rune of its own; any other first byte gives a rune of at
  least \<^verbatim>\<open>0x80\<close>, be it decoded or \<^verbatim>\<open>U+FFFD\<close>.
\<close>

lemma Decode_ascii: "ord c < 0x80 \<Longrightarrow> DecodeRuneInString (c # cs) = (ord c, 1)"
  by (simp add: RuneSelf_def DecodeRuneInString.simps)

lemma Decode_cases:
  "DecodeRuneInString (c # cs) = (ord c, 1) \<and> ord c < 0x80
   \<or> DecodeRuneInString (c # cs) = (RuneError, 1) \<and> 0x80 \<le> ord c
   \<or> (\<exists>c1. DecodeRuneInString (c # cs) = ((ord c - 0xC0) * 64 + (ord c1 - 0x80), 2)
         \<and> 0xC2 \<le> ord c)
   \<or> (\<exists>c1 c2. DecodeRuneInString (c # cs)
            = (((ord c - 0xE0) * 64 + (ord c1 - 0x80)) * 64 + (ord c2 - 0x80), 3)
         \<and> 0xE0 \<le> ord c \<and> second_lo (ord c) \<le> ord c1)
   \<or> (\<exists>c1 c2 c3. DecodeRuneInString (c # cs)
            = ((((ord c - 0xF0) * 64 + (ord c1 - 0x80)) * 64 + (ord c2 - 0x80)) * 64
                 + (ord c3 - 0x80), 4)
         \<and> 0xF0 \<le> ord c \<and> second_lo (ord c) \<le> ord c1)"
proof -
  let ?b = "ord c"
  consider "?b < 0x80" | "0x80 \<le> ?b \<and> (?b < 0xC2 \<or> 0xF4 < ?b)"
    | "0xC2 \<le> ?b \<and> ?b \<le> 0xDF" | "0xE0 \<le> ?b \<and> ?b \<le> 0xEF"
    | "0xF0 \<le> ?b \<and> ?b \<le> 0xF4" by linarith
  then show ?thesis
  proof cases
    case 1
    then show ?thesis by (simp add: RuneSelf_def DecodeRuneInString.simps)
  next
    case 2
    then have "DecodeRuneInString (c # cs) = (RuneError, 1)"
      by (auto simp: RuneSelf_def Let_def)
    then show ?thesis using 2 by simp
  next
    case 3
    then have *: "DecodeRuneInString (c # cs) =
      (case cs of
          c1 # _ \<Rightarrow>
            if cont (ord c1) then ((?b - 0xC0) * 64 + (ord c1 - 0x80), 2)
            else (RuneError, 1)
        | _ \<Rightarrow> (RuneError, 1))"
      by (simp add: RuneSelf_def Let_def)
    show ?thesis
    proof (cases cs)
      case Nil
      then show ?thesis using * 3 by simp
    next
      case (Cons c1 cs1)
      then show ?thesis using * 3 by (cases "cont (ord c1)") auto
    qed
  next
    case 4
    then have *: "DecodeRuneInString (c # cs) =
       (case cs of
          c1 # c2 # _ \<Rightarrow>
            if second_lo ?b \<le> ord c1 \<and> ord c1 \<le> second_hi ?b \<and> cont (ord c2)
            then (((?b - 0xE0) * 64 + (ord c1 - 0x80)) * 64 + (ord c2 - 0x80), 3)
            else (RuneError, 1)
        | _ \<Rightarrow> (RuneError, 1))"
      by (simp add: RuneSelf_def Let_def)
    show ?thesis
    proof (cases cs)
      case Nil
      then show ?thesis using * 4 by simp
    next
      case (Cons c1 cs1)
      show ?thesis
      proof (cases cs1)
        case Nil
        then show ?thesis using * 4 Cons by simp
      next
        case (Cons c2 cs2)
        then show ?thesis using * 4 \<open>cs = c1 # cs1\<close>
          by (cases "second_lo ?b \<le> ord c1 \<and> ord c1 \<le> second_hi ?b \<and> cont (ord c2)") auto
      qed
    qed
  next
    case 5
    then have *: "DecodeRuneInString (c # cs) =
       (case cs of
          c1 # c2 # c3 # _ \<Rightarrow>
            if second_lo ?b \<le> ord c1 \<and> ord c1 \<le> second_hi ?b \<and> cont (ord c2) \<and> cont (ord c3)
            then ((((?b - 0xF0) * 64 + (ord c1 - 0x80)) * 64 + (ord c2 - 0x80)) * 64
                    + (ord c3 - 0x80), 4)
            else (RuneError, 1)
        | _ \<Rightarrow> (RuneError, 1))"
      by (simp add: RuneSelf_def Let_def)
    show ?thesis
    proof (cases cs)
      case Nil
      then show ?thesis using * 5 by simp
    next
      case (Cons c1 cs1)
      show ?thesis
      proof (cases cs1)
        case Nil
        then show ?thesis using * 5 Cons by simp
      next
        case (Cons c2 cs2)
        show ?thesis
        proof (cases cs2)
          case Nil
          then show ?thesis using * 5 Cons \<open>cs = c1 # cs1\<close> by simp
        next
          case (Cons c3 cs3)
          then show ?thesis using * 5 \<open>cs = c1 # cs1\<close> \<open>cs1 = c2 # cs2\<close>
            by (cases "second_lo ?b \<le> ord c1 \<and> ord c1 \<le> second_hi ?b \<and> cont (ord c2) \<and> cont (ord c3)") auto
        qed
      qed
    qed
  qed
qed

lemma mul64_aux: "(1::nat) \<le> u \<Longrightarrow> 128 \<le> (u * 64 + v) * 64 + y"
  by (cases u) (simp_all add: algebra_simps)

lemma mul64_aux2: "(1::nat) \<le> u \<Longrightarrow> 128 \<le> ((u * 64 + v) * 64 + y) * 64 + z"
  by (cases u) (simp_all add: algebra_simps)

lemma Decode_nonascii_rune:
  assumes "\<not> ord c < 0x80"
  shows "0x80 \<le> fst (DecodeRuneInString (c # cs))"
proof -
  have a: "(0x80::nat) \<le> (b - 0xC0) * 64 + x" if "0xC2 \<le> b" for b x :: nat
    using that by linarith
  have b: "(0x80::nat) \<le> ((b - 0xE0) * 64 + (x - 0x80)) * 64 + y"
    if "0xE0 \<le> b" "second_lo b \<le> x" for b x y :: nat
  proof (cases "b = 0xE0")
    case True
    then show ?thesis using that by (simp add: second_lo_def)
  next
    case False
    then have "1 \<le> b - 0xE0" using that by linarith
    then show ?thesis by (rule mul64_aux)
  qed
  have c: "(0x80::nat) \<le> (((b - 0xF0) * 64 + (x - 0x80)) * 64 + y) * 64 + z"
    if "0xF0 \<le> b" "second_lo b \<le> x" for b x y z :: nat
  proof (cases "b = 0xF0")
    case True
    then show ?thesis using that by (simp add: second_lo_def)
  next
    case False
    then have "1 \<le> b - 0xF0" using that by linarith
    then show ?thesis by (rule mul64_aux2)
  qed
  show ?thesis
    using Decode_cases [of c cs] assms a b c
    by (auto simp: RuneError_def)
qed

declare DecodeRuneInString.simps [simp del]

subsection \<open>\<^verbatim>\<open>needsQuoting\<close>, byte by byte\<close>

text \<open>
  The source tests runes; since every admitted rune is below \<^verbatim>\<open>0x80\<close>, the test is a
  test of the bytes.
\<close>

lemma ord_char_eq: "ord c = ord d \<longleftrightarrow> c = d"
  by (simp add: ord_def)

lemma needsQuoting_loop_Cons_plain:
  "needsQuoting_loop (ord c # rs) \<longleftrightarrow> plainChar c \<and> needsQuoting_loop rs"
  by (simp add: plainChar_def ord_char_eq)

lemma needsQuoting_loop_Cons_wide:
  "0x80 \<le> r \<Longrightarrow> \<not> needsQuoting_loop (r # rs)"
  by (simp add: ord_def)

lemma not_plainChar_wide: "\<not> ord c < 0x80 \<Longrightarrow> \<not> plainChar c"
  by (auto simp: plainChar_def ord_def)

lemma needsQuoting_loop_runes:
  "needsQuoting_loop (runes s) \<longleftrightarrow> (\<forall>c \<in> set s. plainChar c)"
proof (induction s rule: runes.induct)
  case 1
  show ?case by simp
next
  case (2 c cs)
  show ?case
  proof (cases "ord c < 0x80")
    case True
    have d: "DecodeRuneInString (c # cs) = (ord c, 1)" using True by (rule Decode_ascii)
    have ih: "needsQuoting_loop (runes cs) \<longleftrightarrow> (\<forall>c \<in> set cs. plainChar c)"
      using "2.IH" [of "ord c" 1] d by simp
    have "runes (c # cs) = ord c # runes cs" by (simp add: d)
    then show ?thesis
      using ih by (simp only: needsQuoting_loop_Cons_plain) simp
  next
    case False
    obtain r w where d: "DecodeRuneInString (c # cs) = (r, w)" by (cases "DecodeRuneInString (c # cs)")
    have r: "0x80 \<le> r" using Decode_nonascii_rune [OF False, of cs] d by simp
    have "runes (c # cs) = r # runes (drop (w - 1) cs)" by (simp add: d)
    then show ?thesis
      using not_plainChar_wide [OF False] needsQuoting_loop_Cons_wide [OF r] by simp
  qed
qed

lemma needsQuoting_iff: "needsQuoting s \<longleftrightarrow> (\<forall>c \<in> set s. plainChar c)"
  by (simp add: needsQuoting_def needsQuoting_loop_runes)

subsection \<open>Lines and indentation\<close>

text \<open>
  Replacing every newline by a newline and a pad is indenting every line after the
  first by the pad.
\<close>

lemma concat_replicate_sp: "concat (replicate n '' '') = replicate n sp"
  unfolding sp_def by (induction n) simp_all

lemma Repeat_length: "Repeat '' '' (int n) = Inr (replicate n sp)"
  by (simp add: Repeat_def concat_replicate_sp sp_def)

lemma splitLines_ne: "splitLines s \<noteq> []"
  by (induction s) (simp_all split: list.split)

lemma joinLines_Cons: "joinLines (l # ls) = l @ concat (map (\<lambda>x. nl # x) ls)"
  by (induction ls arbitrary: l) simp_all

lemma joinLines_splitLines: "joinLines (splitLines s) = s"
proof (induction s)
  case Nil
  show ?case by simp
next
  case (Cons c cs)
  obtain l ls where sl: "splitLines cs = l # ls"
    using splitLines_ne [of cs] by (cases "splitLines cs") auto
  show ?case using Cons sl by (simp add: joinLines_Cons)
qed

lemma splitLines_no_nl: "l \<in> set (splitLines s) \<Longrightarrow> nl \<notin> set l"
proof (induction s arbitrary: l)
  case Nil
  then show ?case by simp
next
  case (Cons c cs)
  obtain l' ls where sl: "splitLines cs = l' # ls"
    using splitLines_ne [of cs] by (cases "splitLines cs") auto
  show ?case using Cons sl by (auto split: if_splits)
qed

lemma ReplaceNewlines_lines:
  "ReplaceNewlines s (nl # pad)
     = joinLines (hd (splitLines s) # map (\<lambda>l. pad @ l) (tl (splitLines s)))"
proof (induction s)
  case Nil
  show ?case by (simp add: ReplaceNewlines_def)
next
  case (Cons c cs)
  obtain l ls where sl: "splitLines cs = l # ls"
    using splitLines_ne [of cs] by (cases "splitLines cs") auto
  have step: "ReplaceNewlines (c # cs) (nl # pad)
      = (if c = nl then nl # pad else [c]) @ ReplaceNewlines cs (nl # pad)"
    by (simp add: ReplaceNewlines_def)
  show ?case using Cons sl unfolding step by (simp add: joinLines_Cons)
qed

lemma splitLines_single: "nl \<notin> set s \<Longrightarrow> splitLines s = [s]"
  by (induction s) auto

subsection \<open>The bracketed tag\<close>

text \<open>
  The regular expression matches exactly the messages that begin with \<^verbatim>\<open>[\<close>, a tag
  without \<^verbatim>\<open>]\<close> and without newline, and \<^verbatim>\<open>]\<close>.
\<close>

lemma upto_close_tag:
  "CHR '']'' \<notin> set tag \<Longrightarrow> nl \<notin> set tag \<Longrightarrow> upto_close (tag @ '']'' @ rest) = Some tag"
  by (induction tag) auto

lemma upto_close_SomeD:
  "upto_close cs = Some g \<Longrightarrow> \<exists>rest. cs = g @ '']'' @ rest \<and> CHR '']'' \<notin> set g \<and> nl \<notin> set g"
proof (induction cs arbitrary: g)
  case Nil
  then show ?case by simp
next
  case (Cons c cs)
  show ?case
  proof (cases "c = CHR '']''")
    case True
    then show ?thesis using Cons.prems by auto
  next
    case False
    then have n: "c \<noteq> nl" and u: "map_option ((#) c) (upto_close cs) = Some g"
      using Cons.prems by (auto split: if_splits)
    then obtain g' where g': "upto_close cs = Some g'" "g = c # g'" by auto
    obtain rest where "cs = g' @ '']'' @ rest" "CHR '']'' \<notin> set g'" "nl \<notin> set g'"
      using Cons.IH [OF g'(1)] by blast
    then show ?thesis using g' False n by auto
  qed
qed

lemma extractPrefix_tag:
  assumes "CHR '']'' \<notin> set tag" "nl \<notin> set tag"
  shows "extractPrefix (''['' @ tag @ '']'' @ rest) = (tag, TrimSpace rest)"
proof -
  have "regex_FindString (''['' @ tag @ '']'' @ rest) = Some (CHR ''['' # tag @ '']'')"
    using upto_close_tag [OF assms, of rest] by (simp add: regex_FindString_def)
  then show ?thesis by (simp add: extractPrefix_def)
qed

lemma regex_FindString_SomeD:
  assumes "regex_FindString msg = Some match"
  shows "\<exists>tag rest. msg = ''['' @ tag @ '']'' @ rest \<and> match = ''['' @ tag @ '']''
           \<and> CHR '']'' \<notin> set tag \<and> nl \<notin> set tag"
proof (cases msg)
  case Nil
  then show ?thesis using assms by (simp add: regex_FindString_def)
next
  case (Cons c cs)
  then have c: "c = CHR ''[''" and "map_option (\<lambda>g. CHR ''['' # g @ '']'') (upto_close cs) = Some match"
    using assms by (auto simp: regex_FindString_def split: if_splits)
  then obtain g where g: "upto_close cs = Some g" "match = CHR ''['' # g @ '']''" by auto
  obtain rest where "cs = g @ '']'' @ rest" "CHR '']'' \<notin> set g" "nl \<notin> set g"
    using upto_close_SomeD [OF g(1)] by blast
  then show ?thesis using Cons c g by auto
qed

lemma extractPrefix_fst:
  assumes "fst (extractPrefix msg) \<noteq> []"
  shows "\<exists>tag rest. msg = ''['' @ tag @ '']'' @ rest \<and> tag \<noteq> []
           \<and> CHR '']'' \<notin> set tag \<and> nl \<notin> set tag"
proof (cases "regex_FindString msg")
  case None
  then show ?thesis using assms by (simp add: extractPrefix_def)
next
  case (Some match)
  obtain tag rest where t: "msg = ''['' @ tag @ '']'' @ rest" "CHR '']'' \<notin> set tag" "nl \<notin> set tag"
    using regex_FindString_SomeD [OF Some] by blast
  have "extractPrefix msg = (tag, TrimSpace rest)"
    unfolding t(1) using t(2,3) by (rule extractPrefix_tag)
  then have "tag \<noteq> []" using assms by simp
  then show ?thesis using t by blast
qed

subsection \<open>Trimming and level names\<close>

lemma TrimRightSpace_keep:
  assumes "s \<noteq> []" "ord (last s) < 0x80" "\<not> IsSpace (ord (last s))"
  shows "TrimRightSpace s = s"
proof -
  obtain ys y where s: "s = ys @ [y]" using assms(1) by (cases s rule: rev_cases) auto
  have "DecodeLastRuneInString s = (ord y, 1)"
    using assms(2) by (simp add: s DecodeLastRuneInString_def RuneSelf_def)
  then show ?thesis using assms(3) s
    by (subst TrimRightSpace.simps) simp
qed

lemma TrimRightSpace_drop:
  assumes "s \<noteq> []" "ord (last s) < 0x80" "IsSpace (ord (last s))"
  shows "TrimRightSpace s = TrimRightSpace (butlast s)"
proof -
  obtain ys y where s: "s = ys @ [y]" using assms(1) by (cases s rule: rev_cases) auto
  have "DecodeLastRuneInString s = (ord y, 1)"
    using assms(2) by (simp add: s DecodeLastRuneInString_def RuneSelf_def)
  then show ?thesis using assms(3) s
    by (subst TrimRightSpace.simps) simp
qed

lemmas level_defs =
  PanicLevel_def FatalLevel_def ErrorLevel_def WarnLevel_def InfoLevel_def DebugLevel_def

lemma char_eq_char_of: "c = char_of n \<longleftrightarrow> take_bit 8 n = (of_char c :: nat)"
  by (subst eq_commute) (rule char_of_eq_iff)

lemma padLeft_levelText: "padLeft 5 (levelText l) = levelLabel l"
  by (simp add: padLeft_def levelText_def Level_String_def ToUpper_def RuneCountInString_def
                Decode_ascii ord_def char_of_eq_iff levelLabel_def sp_def
                WarnLevel_def InfoLevel_def DebugLevel_def ErrorLevel_def FatalLevel_def
                PanicLevel_def)

section \<open>The two paths of \<^verbatim>\<open>Format\<close>\<close>

subsection \<open>Without colors\<close>

lemma appendKeyValue_eq:
  "appendKeyValue h b key val =
     (if Error_panics val then Inl Error_method_panic
      else Inr (b @ key @ ''='' @ valueText h val @ '' ''))"
  by (cases val) (simp_all add: appendKeyValue_def valueText_def Error_panics_def Let_def)

lemma appendKeyValue_string:
  "appendKeyValue h b key (VString s) = Inr (b @ key @ ''='' @ valueText h (VString s) @ '' '')"
  by (simp add: appendKeyValue_eq Error_panics_def)

lemma appendKeyValues_eq:
  "appendKeyValues h b d keys =
     (if fields_panic d keys then Inl Error_method_panic else Inr (b @ plain_fields h d keys))"
  by (induction keys arbitrary: b)
     (simp_all add: appendKeyValue_eq plain_fields_def fields_panic_def)

lemma fields_panic_rendered_keys:
  "fields_panic d (rendered_keys f ks)
     \<longleftrightarrow> (\<exists>k \<in> set ks. k \<noteq> ''prefix'' \<and> Error_panics (index d k))"
  by (auto simp: fields_panic_def rendered_keys_def)

lemma Format_panics_rendered_keys:
  "Format_panics h f entry ks
     \<longleftrightarrow> \<not> isColored h f \<and> fields_panic (prefixFieldClashes (Data entry)) (rendered_keys f ks)"
  by (simp add: Format_panics_def fields_panic_rendered_keys)

lemma colored_no_panic: "isColored h f \<Longrightarrow> \<not> Format_panics h f entry ks"
  by (simp add: Format_panics_def)

lemma DisableColors_plain: "DisableColors f \<Longrightarrow> \<not> isColored h f"
  by (simp add: isColored_def)

lemma Format_plain:
  assumes "\<not> isColored h f"
  shows "Format h f entry ks
    = (if Format_panics h f entry ks then Inl Error_method_panic
       else Inr ((plain_line h f (after_Format entry) (rendered_keys f ks) @ [nl], None),
                 after_Format entry))"
proof -
  have c: "\<not> ((ForceColors f \<or> isTerminal h \<and> GOOS h \<noteq> ''windows'') \<and> \<not> DisableColors f)"
    using assms by (simp add: isColored_def)
  have p: "Format_panics h f entry ks
      \<longleftrightarrow> fields_panic (prefixFieldClashes (Data entry)) (rendered_keys f ks)"
    using assms by (simp add: Format_panics_rendered_keys)
  show ?thesis
    unfolding Format_def Let_def p
    by (simp only: c if_False appendKeyValue_string appendKeyValues_eq)
       (simp add: plain_line_def after_Format_def rendered_keys_def layout_def)
qed

lemma Format_plain_returns:
  assumes "\<not> isColored h f" "\<not> Format_panics h f entry ks"
  shows "Format h f entry ks
    = Inr ((plain_line h f (after_Format entry) (rendered_keys f ks) @ [nl], None),
           after_Format entry)"
  using assms by (simp add: Format_plain)

lemma plain_fields_last:
  "keys \<noteq> [] \<Longrightarrow> plain_fields h d keys \<noteq> [] \<and> last (plain_fields h d keys) = CHR '' ''"
  by (cases keys rule: rev_cases) (simp_all add: plain_fields_def)

lemma plain_line_last:
  "plain_line h f entry keys \<noteq> [] \<and> last (plain_line h f entry keys) = CHR '' ''"
proof (cases "keys = []")
  case True
  then show ?thesis by (simp add: plain_line_def plain_fields_def)
next
  case False
  then show ?thesis using plain_fields_last [OF False, of h "Data entry"]
    by (simp add: plain_line_def)
qed

lemma plain_line_ends: "\<exists>body. plain_line h f entry keys = body @ '' ''"
proof -
  have "plain_line h f entry keys = butlast (plain_line h f entry keys) @ '' ''"
    using plain_line_last [of h f entry keys] append_butlast_last_id [of "plain_line h f entry keys"]
    by simp
  then show ?thesis ..
qed

lemma plain_fields_cong:
  "(\<And>k. k \<in> set keys \<Longrightarrow> d k = d' k) \<Longrightarrow> plain_fields h d keys = plain_fields h d' keys"
  by (simp add: plain_fields_def index_def cong: map_cong)

lemma fields_panic_cong:
  "(\<And>k. k \<in> set keys \<Longrightarrow> d k = d' k) \<Longrightarrow> fields_panic d keys = fields_panic d' keys"
  by (simp add: fields_panic_def index_def cong: bex_cong)

subsection \<open>With colors\<close>

text \<open>
  \<^verbatim>\<open>printColored\<close> never panics: the count it passes to \<^verbatim>\<open>strings.Repeat\<close> is the length of
  the visible header.  What it writes is the colored line for the prefix tag and the
  message it settles on.
\<close>

lemma level_pair:
  "(if Level entry = InfoLevel then (ansi_Green h, [])
    else if Level entry = WarnLevel then (ansi_Yellow h, [])
    else if Level entry = ErrorLevel \<or> Level entry = FatalLevel \<or> Level entry = PanicLevel
      then (ansi_Red h, [])
    else if Level entry = DebugLevel then
      (case Caller6 h of
         (callername, file, line) \<Rightarrow>
           (ansi_Blue h,
            '' ['' @ callername @ '']['' @ file @ '']['' @ Itoa line @ '']''))
    else (ansi_Blue h, []))
   = (levelColor h (Level entry), debugInf h (Level entry))"
  by (simp add: levelColor_def debugInf_def InfoLevel_def WarnLevel_def ErrorLevel_def
                FatalLevel_def PanicLevel_def DebugLevel_def split: prod.split)

lemma prefix_pair:
  "(case Data entry ''prefix'' of
      Some pfx \<Rightarrow>
        ('' '' @ ansi_Cyan h @ Sprint pfx @ '':'' @ reset h, Message entry)
    | None \<Rightarrow>
        (case extractPrefix (Message entry) of
           (pfx, trimmed) \<Rightarrow>
             if length pfx > 0 then ('' '' @ ansi_Cyan h @ pfx @ '':'' @ reset h, trimmed)
             else ([], Message entry)))
   = (prefixTag h (fst (prefix_and_message entry)), snd (prefix_and_message entry))"
  by (simp add: prefix_and_message_def prefixTag_def split: option.split prod.split)

lemma levelText_eq:
  "(if l \<noteq> WarnLevel then ToUpper (Level_String l) else ''WARN'') = levelText l"
  by (simp add: levelText_def)

lemma header_eq:
  "(if DisableTimestamp f then
      ansi_LightBlack h @ reset h @ '' '' @ levelColor h (Level entry)
        @ padLeft 5 (levelText (Level entry)) @ reset h @ debugInf h (Level entry)
        @ prefixTag h tag @ '' ''
    else if ShortTimestamp f then
      ansi_LightBlack h @ ''['' @ fmt_04d (miniTS h) @ '']'' @ reset h @ '' ''
        @ levelColor h (Level entry)
        @ padLeft 5 (levelText (Level entry)) @ reset h @ debugInf h (Level entry)
        @ prefixTag h tag @ '' ''
    else
      ansi_LightBlack h @ ''['' @ Time_Format h (Time entry) tf @ '']''
        @ reset h @ '' '' @ levelColor h (Level entry)
        @ padLeft 5 (levelText (Level entry)) @ reset h @ debugInf h (Level entry)
        @ prefixTag h tag @ '' '')
   = colored_header h f entry tf tag"
  by (simp add: timestampBlock_def colored_header_def)

lemma header_length:
  "length (colored_header h f entry tf tag)
     = length (visible_header h f entry tf tag) + color_bytes h entry tag"
  by (simp add: colored_header_def visible_header_def color_bytes_def prefixTag_def
           split: option.split)

lemma prefixTag_empty: "prefixTag h tag \<noteq> [] \<longleftrightarrow> tag \<noteq> None"
  by (simp add: prefixTag_def split: option.split)

lemma padlen_eq:
  "(if prefixTag h tag \<noteq> []
    then int (length (colored_header h f entry tf tag))
           - (int (length (ansi_LightBlack h)) + int (length (levelColor h (Level entry)))
              + 2 * int (length (reset h)))
           - (int (length (ansi_Cyan h)) + int (length (reset h)))
    else int (length (colored_header h f entry tf tag))
           - (int (length (ansi_LightBlack h)) + int (length (levelColor h (Level entry)))
              + 2 * int (length (reset h))))
   = int (length (visible_header h f entry tf tag))"
  by (simp add: header_length prefixTag_empty color_bytes_def split: option.split)

lemma printColored_eq:
  "printColored h f wr entry keys tf
     = Inr (wr @ colored_line h f entry keys tf (fst (prefix_and_message entry))
                   (snd (prefix_and_message entry)))"
proof -
  let ?tag = "fst (prefix_and_message entry)"
  let ?msg = "snd (prefix_and_message entry)"
  let ?hd = "colored_header h f entry tf ?tag"
  let ?n = "length (visible_header h f entry tf ?tag)"
  have unfolded: "printColored h f wr entry keys tf =
    (if IndentMultilineMessage f \<and> nl \<in> set ?msg then
       (case Repeat '' ''
              (if prefixTag h ?tag \<noteq> []
               then int (length ?hd)
                      - (int (length (ansi_LightBlack h)) + int (length (levelColor h (Level entry)))
                         + 2 * int (length (reset h)))
                      - (int (length (ansi_Cyan h)) + int (length (reset h)))
               else int (length ?hd)
                      - (int (length (ansi_LightBlack h)) + int (length (levelColor h (Level entry)))
                         + 2 * int (length (reset h)))) of
          Inl p \<Rightarrow> Inl p
        | Inr pad \<Rightarrow>
            Inr ((wr @ ?hd) @ messageFormat f (ReplaceNewlines ?msg (nl # pad))
                   @ colored_fields h (levelColor h (Level entry)) (Data entry) keys))
     else Inr ((wr @ ?hd) @ messageFormat f ?msg
                 @ colored_fields h (levelColor h (Level entry)) (Data entry) keys))"
    unfolding printColored_def level_pair prefix_pair levelText_eq Let_def prod.case header_eq
      messageFormat_def [symmetric] colored_fields_def [symmetric]
    by simp
  show ?thesis
  proof (cases "IndentMultilineMessage f \<and> nl \<in> set ?msg")
    case True
    show ?thesis
      unfolding unfolded padlen_eq Repeat_length
      using True by (simp add: colored_line_def ReplaceNewlines_lines)
  next
    case False
    show ?thesis
    proof (cases "IndentMultilineMessage f")
      case True
      then have "nl \<notin> set ?msg" using False by simp
      then have "splitLines ?msg = [?msg]" by (rule splitLines_single)
      then show ?thesis unfolding unfolded using False by (simp add: colored_line_def)
    next
      case False
      then show ?thesis unfolding unfolded by (simp add: colored_line_def)
    qed
  qed
qed

lemma after_Format_sel:
  "Data (after_Format entry) = prefixFieldClashes (Data entry)"
  "Level (after_Format entry) = Level entry"
  "Time (after_Format entry) = Time entry"
  "Message (after_Format entry) = Message entry"
  by (simp_all add: after_Format_def)

lemma prefix_and_message_after:
  "prefix_and_message (after_Format entry) = prefix_and_message entry"
proof -
  have 1: "Data (after_Format entry) ''prefix'' = Data entry ''prefix''"
    by (simp add: after_Format_def prefixFieldClashes_def Let_def)
  have 2: "Message (after_Format entry) = Message entry"
    by (simp add: after_Format_def)
  show ?thesis
    unfolding prefix_and_message_def 1 2 ..
qed

lemma Format_colored:
  assumes "isColored h f"
  shows "Format h f entry ks
    = Inr ((colored_line h f (after_Format entry) (rendered_keys f ks) (layout f)
              (fst (prefix_and_message entry)) (snd (prefix_and_message entry)) @ [nl], None),
           after_Format entry)"
proof -
  have c: "(ForceColors f \<or> isTerminal h \<and> GOOS h \<noteq> ''windows'') \<and> \<not> DisableColors f"
    using assms by (simp add: isColored_def)
  have k: "(if \<not> DisableSorting f then sort (filter (\<lambda>k. k \<noteq> ''prefix'') ks)
            else filter (\<lambda>k. k \<noteq> ''prefix'') ks) = rendered_keys f ks"
    by (simp add: rendered_keys_def)
  have l: "(if TimestampFormat f = [] then time_Stamp else TimestampFormat f) = layout f"
    by (simp add: layout_def)
  have a: "entry\<lparr>Data := prefixFieldClashes (Data entry)\<rparr> = after_Format entry"
    by (simp add: after_Format_def)
  show ?thesis
    unfolding Format_def Let_def k l a
    by (simp only: c if_True printColored_eq prefix_and_message_after) simp
qed

lemma colored_header_after:
  "colored_header h f (after_Format entry) tf tag = colored_header h f entry tf tag"
  by (simp add: colored_header_def timestampBlock_def after_Format_sel)

lemma visible_header_after:
  "visible_header h f (after_Format entry) tf tag = visible_header h f entry tf tag"
  by (simp add: visible_header_def timestampBlock_def after_Format_sel)

lemma prefix_and_message_field:
  "Data entry ''prefix'' = Some v \<Longrightarrow> prefix_and_message entry = (Some (Sprint v), Message entry)"
  by (simp add: prefix_and_message_def)

lemma prefix_and_message_tag:
  assumes "Data entry ''prefix'' = None" "Message entry = ''['' @ tag @ '']'' @ rest"
    "tag \<noteq> []" "CHR '']'' \<notin> set tag" "nl \<notin> set tag"
  shows "prefix_and_message entry = (Some tag, TrimSpace rest)"
proof -
  have "extractPrefix (Message entry) = (tag, TrimSpace rest)"
    unfolding assms(2) using assms(4,5) by (rule extractPrefix_tag)
  then show ?thesis using assms(1,3) by (simp add: prefix_and_message_def)
qed

lemma prefix_and_message_none:
  assumes "Data entry ''prefix'' = None"
    "\<not> (\<exists>t r. Message entry = ''['' @ t @ '']'' @ r \<and> t \<noteq> [] \<and> CHR '']'' \<notin> set t \<and> nl \<notin> set t)"
  shows "prefix_and_message entry = (None, Message entry)"
proof -
  have "fst (extractPrefix (Message entry)) = []"
    using extractPrefix_fst [of "Message entry"] assms(2) by blast
  then show ?thesis using assms(1)
    by (cases "extractPrefix (Message entry)") (simp add: prefix_and_message_def)
qed

subsection \<open>Keys and fields\<close>

lemma colored_line_fields:
  "colored_line h f entry keys tf tag message
     = colored_line h f entry [] tf tag message
       @ colored_fields h (levelColor h (Level entry)) (Data entry) keys"
  by (simp add: colored_line_def colored_fields_def)

lemma plain_line_fields:
  "plain_line h f entry keys = plain_line h f entry [] @ plain_fields h (Data entry) keys"
  by (simp add: plain_line_def plain_fields_def)

lemma colored_line_after:
  "colored_line h f (after_Format entry) [] tf tag message
     = colored_line h f entry [] tf tag message"
  by (simp add: colored_line_def colored_header_def visible_header_def timestampBlock_def
                after_Format_def colored_fields_def)

lemma plain_line_after: "plain_line h f (after_Format entry) [] = plain_line h f entry []"
  by (simp add: plain_line_def after_Format_def plain_fields_def)

lemma Format_fields:
  "Format h f entry ks
     = (if Format_panics h f entry ks then Inl Error_method_panic
        else Inr ((line_before_fields h f entry @ fields_text h f entry (rendered_keys f ks)
                     @ [nl], None), after_Format entry))"
proof (cases "isColored h f")
  case True
  have "colored_line h f (after_Format entry) (rendered_keys f ks) (layout f)
              (fst (prefix_and_message entry)) (snd (prefix_and_message entry))
     = line_before_fields h f entry @ fields_text h f entry (rendered_keys f ks)"
    using True
    by (subst colored_line_fields)
       (simp add: line_before_fields_def fields_text_def colored_line_after after_Format_sel)
  then show ?thesis using True by (simp add: Format_colored colored_no_panic)
next
  case False
  have "plain_line h f (after_Format entry) (rendered_keys f ks)
     = line_before_fields h f entry @ fields_text h f entry (rendered_keys f ks)"
    using False
    by (subst plain_line_fields)
       (simp add: line_before_fields_def fields_text_def plain_line_after after_Format_sel)
  then show ?thesis using False by (simp add: Format_plain)
qed

lemma Format_keys_cong:
  "rendered_keys f ks' = rendered_keys f ks \<Longrightarrow> Format h f entry ks' = Format h f entry ks"
  by (simp add: Format_fields Format_panics_rendered_keys)

text \<open>
  The order on strings that \<open>sort\<close> and \<open>sorted\<close> use compares byte by byte, a proper
  prefix coming first, as the comparison of Go strings does.
\<close>

lemma string_order_bytes:
  "([] :: string) \<le> s"
  "\<not> c # cs \<le> ([] :: string)"
  "c # cs \<le> d # ds \<longleftrightarrow> ord c < ord d \<or> (c = d \<and> cs \<le> ds)"
  by (simp_all add: ord_def less_char_def)

lemma sort_rangeOrder:
  assumes "rangeOrder d ks" "rangeOrder d ks'"
  shows "sort (filter P ks) = sort (filter P ks')"
proof (rule sorted_distinct_set_unique)
  show "sorted (sort (filter P ks))" by simp
  show "distinct (sort (filter P ks))" using assms by (simp add: rangeOrder_def)
  show "sorted (sort (filter P ks'))" by simp
  show "distinct (sort (filter P ks'))" using assms by (simp add: rangeOrder_def)
  show "set (sort (filter P ks)) = set (sort (filter P ks'))"
    using assms by (simp add: rangeOrder_def)
qed

lemma rendered_keys_sorted:
  assumes "\<not> DisableSorting f"
  shows "sorted (rendered_keys f ks)"
  using assms by (simp add: rendered_keys_def)

lemma rendered_keys_set:
  assumes "rangeOrder d ks"
  shows "distinct (rendered_keys f ks) \<and> set (rendered_keys f ks) = dom d - {''prefix''}"
  using assms by (auto simp: rendered_keys_def rangeOrder_def)

lemma rendered_keys_rangeOrder:
  assumes "\<not> DisableSorting f" "rangeOrder d ks" "rangeOrder d ks'"
  shows "rendered_keys f ks' = rendered_keys f ks"
  using assms sort_rangeOrder [of d ks' ks] by (simp add: rendered_keys_def)

lemma prefix_notin_rendered_keys: "''prefix'' \<notin> set (rendered_keys f ks)"
  by (simp add: rendered_keys_def)

subsection \<open>The map after a call\<close>

lemma prefixFieldClashes_idem:
  "prefixFieldClashes (prefixFieldClashes d) = prefixFieldClashes d"
  by (rule ext) (simp add: prefixFieldClashes_def Let_def)

lemma prefixFieldClashes_no_clash:
  "d ''time'' = None \<Longrightarrow> d ''msg'' = None \<Longrightarrow> d ''level'' = None \<Longrightarrow> prefixFieldClashes d = d"
  by (simp add: prefixFieldClashes_def Let_def)

lemma after_Format_idem: "after_Format (after_Format entry) = after_Format entry"
  by (simp add: after_Format_def prefixFieldClashes_idem)

lemma prefixFieldClashes_prefix_upd:
  "k \<noteq> ''prefix'' \<Longrightarrow> prefixFieldClashes (d(''prefix'' := p)) k = prefixFieldClashes d k"
  by (simp add: prefixFieldClashes_def Let_def)

section \<open>Lines at the sample inputs\<close>

lemmas eval_plain =
  Format_panics_def Error_panics_def
  plain_line_def plain_fields_def valueText_def needsQuoting_iff plainChar_def ord_def
  rendered_keys_def layout_def after_Format_def prefixFieldClashes_def Let_def index_def
  Level_String_def InfoLevel_def DebugLevel_def WarnLevel_def ErrorLevel_def FatalLevel_def
  PanicLevel_def time_Stamp_def

lemmas eval_quote =
  Quote_def Quote_body.simps Decode_ascii appendEscapedRune_def IsPrint_def dquote_def
  backslash_def RuneError_def char_of_eq_iff

lemmas eval_line =
  colored_line_def colored_header_def visible_header_def timestampBlock_def levelColor_def
  levelText_def debugInf_def prefixTag_def messageFormat_def colored_fields_def
  ToUpper_def padLeft_def RuneCountInString_def reset_def sp_def esc_def

lemmas eval_colored =
  colored_line_def colored_header_def visible_header_def timestampBlock_def levelColor_def
  levelText_def debugInf_def prefixTag_def messageFormat_def colored_fields_def
  prefix_and_message_def extractPrefix_def regex_FindString_def ToUpper_def padLeft_def
  RuneCountInString_def reset_def sp_def nl_def esc_def IsSpace_def TrimSpace_def
  line_before_fields_def fields_text_def isColored_def

lemma plain_config_plain: "\<not> isColored h plain_config"
  by (simp add: isColored_def plain_config_def)

lemma color_config_colored: "isColored h color_config"
  by (simp add: isColored_def color_config_def)

lemma default_config_plain: "\<not> isColored sample_host default_config"
  by (simp add: isColored_def default_config_def sample_host_def)

lemma after_Format_entry_ab: "after_Format entry_ab = entry_ab"
  by (simp add: after_Format_def prefixFieldClashes_def entry_ab_def)

lemma after_Format_entry_hello: "after_Format entry_hello = entry_hello"
  by (simp add: after_Format_def prefixFieldClashes_def entry_hello_def)

lemma after_Format_entry_job: "after_Format entry_job = entry_job"
  by (simp add: after_Format_def prefixFieldClashes_def entry_job_def)

lemma after_Format_entry_worker: "after_Format entry_worker = entry_worker"
  by (simp add: after_Format_def prefixFieldClashes_def entry_worker_def)

lemma after_Format_entry_two_lines: "after_Format entry_two_lines = entry_two_lines"
  by (simp add: after_Format_def prefixFieldClashes_def entry_two_lines_def)

lemma TrimSpace_started_job: "TrimSpace '' started job'' = ''started job''"
  by (simp add: TrimSpace_def Decode_ascii TrimRightSpace_keep IsSpace_def ord_def nl_def)

lemma TrimSpace_two_lines:
  "TrimSpace ('' line one'' @ [nl] @ ''line two'') = ''line one'' @ [nl] @ ''line two''"
  by (simp add: TrimSpace_def Decode_ascii TrimRightSpace_keep IsSpace_def ord_def nl_def)

lemma TrimSpace_started_job_space: "TrimSpace '' started job '' = ''started job''"
  by (simp add: TrimSpace_def Decode_ascii TrimRightSpace_keep TrimRightSpace_drop
                IsSpace_def ord_def)

lemma after_Format_no_fields:
  "Data entry = Map.empty \<Longrightarrow> after_Format entry = entry"
  by (simp add: after_Format_def prefixFieldClashes_def)

lemma prefix_and_message_empty_tag:
  "prefix_and_message entry_empty_tag = (None, ''[] started job'')"
  by (simp add: prefix_and_message_def extractPrefix_def regex_FindString_def
                entry_empty_tag_def)

lemma prefix_and_message_trailing_space:
  "prefix_and_message entry_trailing_space = (Some ''worker'', ''started job'')"
  by (simp add: prefix_and_message_def extractPrefix_def regex_FindString_def
                entry_trailing_space_def nl_def TrimSpace_started_job_space)

lemma prefix_and_message_broken_tag:
  "prefix_and_message entry_broken_tag = (None, ''[wor'' @ [nl] @ ''ker] started job'')"
  by (simp add: prefix_and_message_def extractPrefix_def regex_FindString_def
                entry_broken_tag_def nl_def)

lemma clash_first:
  "Format sample_host plain_config entry_clash [''time'']
     = Inr ((''time='' @ [dquote] @ ''Jan  1 00:00:00'' @ [dquote]
               @ '' level=info msg=ready time=noon '' @ [nl], None),
            entry_clash\<lparr>Data := [''time'' \<mapsto> VString ''noon'', ''fields.time'' \<mapsto> VString ''noon'']\<rparr>)"
  unfolding Format_plain [OF plain_config_plain]
  by (simp add: eval_plain eval_quote sample_host_def plain_config_def entry_clash_def)

lemma clash_second:
  "Format sample_host plain_config
       (entry_clash\<lparr>Data := [''time'' \<mapsto> VString ''noon'', ''fields.time'' \<mapsto> VString ''noon'']\<rparr>)
       [''time'', ''fields.time'']
     = Inr ((''time='' @ [dquote] @ ''Jan  1 00:00:00'' @ [dquote]
               @ '' level=info msg=ready fields.time=noon time=noon '' @ [nl], None),
            entry_clash\<lparr>Data := [''time'' \<mapsto> VString ''noon'', ''fields.time'' \<mapsto> VString ''noon'']\<rparr>)"
  unfolding Format_plain [OF plain_config_plain]
  by (simp add: eval_plain eval_quote sample_host_def plain_config_def entry_clash_def)


lemma after_Format_entry_nil_error: "after_Format entry_nil_error = entry_nil_error"
  by (simp add: after_Format_def prefixFieldClashes_def entry_nil_error_def)

lemma colored_nil_error:
  "Format sample_host color_config entry_nil_error [''err'']
     = Inr ((esc ''90'' @ ''[Jan  1 00:00:00]'' @ esc ''0'' @ '' '' @ esc ''32'' @ '' INFO''
               @ esc ''0'' @ '' ready '' @ esc ''32'' @ ''err'' @ esc ''0'' @ ''=<nil>''
               @ [nl], None), entry_nil_error)"
  unfolding Format_colored [OF color_config_colored] after_Format_entry_nil_error
  by (simp add: eval_colored eval_plain eval_quote sample_host_def color_config_def
                entry_nil_error_def)

lemma plain_hello:
  "Format sample_host plain_config entry_hello [''greeting'']
     = Inr ((''time='' @ [dquote] @ ''Jan  1 00:00:00'' @ [dquote] @ '' level=info msg=ready ''
               @ ''greeting='' @ [dquote] @ ''hello world'' @ [dquote] @ '' '' @ [nl], None),
            entry_hello)"
  unfolding Format_plain [OF plain_config_plain]
  by (simp add: eval_plain eval_quote sample_host_def plain_config_def entry_hello_def)

lemma colored_entry_ab:
  "Format sample_host color_config entry_ab [''b'', ''a'']
     = Inr ((esc ''90'' @ ''[Jan  1 00:00:00]'' @ esc ''0'' @ '' '' @ esc ''32'' @ '' INFO''
               @ esc ''0'' @ '' ready '' @ esc ''32'' @ ''a'' @ esc ''0'' @ ''=2 ''
               @ esc ''32'' @ ''b'' @ esc ''0'' @ ''=1'' @ [nl], None), entry_ab)"
  unfolding Format_colored [OF color_config_colored] after_Format_entry_ab
  by (simp add: eval_colored eval_plain eval_quote sample_host_def color_config_def
                entry_ab_def digits.simps Itoa_def)

section \<open>Colliding field names\<close>

text \<open>
  Claim C1.  A field named \<^verbatim>\<open>time\<close>, \<^verbatim>\<open>msg\<close> or \<^verbatim>\<open>level\<close> is to appear in the output of the
  same call under the key \<^verbatim>\<open>fields.time\<close>, \<^verbatim>\<open>fields.msg\<close> or \<^verbatim>\<open>fields.level\<close>, the reserved key
  carrying the entry's own value.  \<^verbatim>\<open>Format\<close> collects the keys before it calls
  \<^verbatim>\<open>prefixFieldClashes\<close>, so the copy is in the map after the call but not among the keys
  of the call: for the entry whose only field is \<^verbatim>\<open>time\<close> with the value \<^verbatim>\<open>noon\<close>, the line
  has the key \<^verbatim>\<open>time\<close> twice, once with the entry's instant and once with \<^verbatim>\<open>noon\<close>, and no key
  \<^verbatim>\<open>fields.time\<close>.
\<close>

theorem clash_copy_not_rendered:
  "Format sample_host plain_config entry_clash [''time'']
     = Inr ((''time='' @ [dquote] @ ''Jan  1 00:00:00'' @ [dquote]
               @ '' level=info msg=ready time=noon '' @ [nl], None),
            entry_clash\<lparr>Data := [''time'' \<mapsto> VString ''noon'', ''fields.time'' \<mapsto> VString ''noon'']\<rparr>)"
  by (rule clash_first)

text \<open>
  In general, a key \<^verbatim>\<open>fields.time\<close> that the map does not hold before the call is not among
  the rendered keys of the call, while the map holds it after the call when there is a
  field \<^verbatim>\<open>time\<close>.
\<close>

lemma clash_copy_not_among_keys:
  assumes "rangeOrder (Data entry) ks" "Data entry ''fields.time'' = None"
  shows "''fields.time'' \<notin> set (rendered_keys f ks)"
  using assms by (auto simp: rendered_keys_def rangeOrder_def)

lemma clash_copy_in_map:
  assumes "Data entry ''time'' = Some v"
  shows "Data (after_Format entry) ''fields.time'' = Some v"
  using assms by (simp add: after_Format_def prefixFieldClashes_def Let_def)

text \<open>
  The copy shows up one call late.  For the same entry the first call leaves
  \<^verbatim>\<open>fields.time\<close> in the map; a second call finds it among the keys and renders it, so
  its line differs from the first one.
\<close>

theorem second_call_differs:
  "Format sample_host plain_config entry_clash [''time'']
     = Inr ((''time='' @ [dquote] @ ''Jan  1 00:00:00'' @ [dquote]
               @ '' level=info msg=ready time=noon '' @ [nl], None),
            entry_clash\<lparr>Data := [''time'' \<mapsto> VString ''noon'', ''fields.time'' \<mapsto> VString ''noon'']\<rparr>)
   \<and> rangeOrder [''time'' \<mapsto> VString ''noon'', ''fields.time'' \<mapsto> VString ''noon'']
         [''time'', ''fields.time'']
   \<and> Format sample_host plain_config
         (entry_clash\<lparr>Data := [''time'' \<mapsto> VString ''noon'', ''fields.time'' \<mapsto> VString ''noon'']\<rparr>)
         [''time'', ''fields.time'']
     = Inr ((''time='' @ [dquote] @ ''Jan  1 00:00:00'' @ [dquote]
               @ '' level=info msg=ready fields.time=noon time=noon '' @ [nl], None),
            entry_clash\<lparr>Data := [''time'' \<mapsto> VString ''noon'', ''fields.time'' \<mapsto> VString ''noon'']\<rparr>)
   \<and> ''time='' @ [dquote] @ ''Jan  1 00:00:00'' @ [dquote]
         @ '' level=info msg=ready time=noon '' @ [nl]
     \<noteq> ''time='' @ [dquote] @ ''Jan  1 00:00:00'' @ [dquote]
         @ '' level=info msg=ready fields.time=noon time=noon '' @ [nl]"
proof -
  have "rangeOrder [''time'' \<mapsto> VString ''noon'', ''fields.time'' \<mapsto> VString ''noon'']
         [''time'', ''fields.time'']"
    by (auto simp: rangeOrder_def)
  then show ?thesis
    using clash_first clash_second by simp
qed

section \<open>Repeated calls\<close>

text \<open>
  Claim C2, amended.  Let a first call have left the entry as \<open>after_Format entry\<close>.  When
  \<^verbatim>\<open>DisableSorting\<close> is not set, every further call on a given host has the same outcome,
  whatever the order in which the loop visits the keys.  Unless it is one of the calls
  that panic, which \<open>Format_panics\<close> describes, it returns the same bytes and no error, and
  leaves the entry as it is: the keys \<^verbatim>\<open>fields.time\<close>, \<^verbatim>\<open>fields.msg\<close> and \<^verbatim>\<open>fields.level\<close> are
  not renamed again.  When the entry has no field named \<^verbatim>\<open>time\<close>, \<^verbatim>\<open>msg\<close> or \<^verbatim>\<open>level\<close>, the
  first call has this outcome too.
\<close>

theorem repeated_call:
  assumes "\<not> DisableSorting f"
    and "rangeOrder (Data (after_Format entry)) ks'"
    and "rangeOrder (Data (after_Format entry)) ks''"
  shows "Format h f (after_Format entry) ks'' = Format h f (after_Format entry) ks'
     \<and> (if Format_panics h f (after_Format entry) ks'
         then Format h f (after_Format entry) ks' = Inl Error_method_panic
         else (\<exists>b. Format h f (after_Format entry) ks' = Inr ((b, None), after_Format entry)))
     \<and> (Data entry ''time'' = None \<and> Data entry ''msg'' = None \<and> Data entry ''level'' = None
          \<and> rangeOrder (Data entry) ks
          \<longrightarrow> Format h f entry ks = Format h f (after_Format entry) ks')"
proof -
  have 1: "Format h f (after_Format entry) ks'' = Format h f (after_Format entry) ks'"
    using rendered_keys_rangeOrder [OF assms] by (rule Format_keys_cong)
  have 2: "if Format_panics h f (after_Format entry) ks'
           then Format h f (after_Format entry) ks' = Inl Error_method_panic
           else (\<exists>b. Format h f (after_Format entry) ks' = Inr ((b, None), after_Format entry))"
    by (simp add: Format_fields after_Format_idem)
  have 3: "Format h f entry ks = Format h f (after_Format entry) ks'"
    if n: "Data entry ''time'' = None" "Data entry ''msg'' = None" "Data entry ''level'' = None"
      and r: "rangeOrder (Data entry) ks"
  proof -
    have e: "after_Format entry = entry"
      using n by (simp add: after_Format_def prefixFieldClashes_no_clash)
    have "rendered_keys f ks = rendered_keys f ks'"
      using rendered_keys_rangeOrder [OF assms(1) _ r, of ks'] assms(2) e by simp
    then show ?thesis unfolding e by (rule Format_keys_cong)
  qed
  show ?thesis
  proof (intro conjI)
    show "Format h f (after_Format entry) ks'' = Format h f (after_Format entry) ks'"
      by (rule 1)
    show "if Format_panics h f (after_Format entry) ks'
          then Format h f (after_Format entry) ks' = Inl Error_method_panic
          else (\<exists>b. Format h f (after_Format entry) ks' = Inr ((b, None), after_Format entry))"
      by (rule 2)
    show "Data entry ''time'' = None \<and> Data entry ''msg'' = None \<and> Data entry ''level'' = None
            \<and> rangeOrder (Data entry) ks
          \<longrightarrow> Format h f entry ks = Format h f (after_Format entry) ks'"
      using 3 by blast
  qed
qed

text \<open>
  Claim C2 at the sample entry with the field \<^verbatim>\<open>time\<close>, from the second call on, and at the
  sample entry with the fields \<^verbatim>\<open>b\<close> and \<^verbatim>\<open>a\<close>, from the first call on.
\<close>

theorem repeated_call_witness:
  "\<not> DisableSorting plain_config
   \<and> \<not> Format_panics sample_host plain_config (after_Format entry_clash) [''time'', ''fields.time'']
   \<and> Data (after_Format entry_clash) = [''time'' \<mapsto> VString ''noon'', ''fields.time'' \<mapsto> VString ''noon'']
   \<and> rangeOrder (Data (after_Format entry_clash)) [''time'', ''fields.time'']
   \<and> rangeOrder (Data (after_Format entry_clash)) [''fields.time'', ''time'']
   \<and> Format sample_host plain_config (after_Format entry_clash) [''fields.time'', ''time'']
       = Format sample_host plain_config (after_Format entry_clash) [''time'', ''fields.time'']
   \<and> Format sample_host plain_config (after_Format entry_clash) [''time'', ''fields.time'']
       = Inr ((''time='' @ [dquote] @ ''Jan  1 00:00:00'' @ [dquote]
                 @ '' level=info msg=ready fields.time=noon time=noon '' @ [nl], None),
              after_Format entry_clash)
   \<and> Data entry_ab ''time'' = None \<and> Data entry_ab ''msg'' = None
   \<and> Data entry_ab ''level'' = None
   \<and> rangeOrder (Data entry_ab) [''b'', ''a'']
   \<and> rangeOrder (Data (after_Format entry_ab)) [''a'', ''b'']
   \<and> Format sample_host plain_config entry_ab [''b'', ''a'']
       = Format sample_host plain_config (after_Format entry_ab) [''a'', ''b'']"
proof -
  have s: "\<not> DisableSorting plain_config" by (simp add: plain_config_def)
  have d: "Data (after_Format entry_clash)
      = [''time'' \<mapsto> VString ''noon'', ''fields.time'' \<mapsto> VString ''noon'']"
    by (simp add: after_Format_def prefixFieldClashes_def entry_clash_def)
  have a: "after_Format entry_clash
      = entry_clash\<lparr>Data := [''time'' \<mapsto> VString ''noon'', ''fields.time'' \<mapsto> VString ''noon'']\<rparr>"
    by (simp add: after_Format_def prefixFieldClashes_def entry_clash_def)
  have r: "rangeOrder (Data (after_Format entry_clash)) [''time'', ''fields.time'']"
    "rangeOrder (Data (after_Format entry_clash)) [''fields.time'', ''time'']"
    unfolding d by (auto simp: rangeOrder_def)
  have n: "Data entry_ab ''time'' = None" "Data entry_ab ''msg'' = None"
    "Data entry_ab ''level'' = None"
    by (simp_all add: entry_ab_def)
  have q: "rangeOrder (Data entry_ab) [''b'', ''a'']"
    "rangeOrder (Data (after_Format entry_ab)) [''a'', ''b'']"
    unfolding after_Format_entry_ab by (auto simp: rangeOrder_def entry_ab_def)
  have v: "Format sample_host plain_config (after_Format entry_clash) [''time'', ''fields.time'']
       = Inr ((''time='' @ [dquote] @ ''Jan  1 00:00:00'' @ [dquote]
                 @ '' level=info msg=ready fields.time=noon time=noon '' @ [nl], None),
              after_Format entry_clash)"
    unfolding a by (rule clash_second)
  have np: "\<not> Format_panics sample_host plain_config (after_Format entry_clash)
                [''time'', ''fields.time'']"
    unfolding a by (simp add: eval_plain entry_clash_def)
  show ?thesis
    using s d r n q v np
      repeated_call [OF s r, where h = sample_host]
      repeated_call [OF s q(2) q(2), where h = sample_host and ks = "[''b'', ''a'']"]
    by simp
qed

text \<open>
  Claim C2 as written covers every configuration.  With \<^verbatim>\<open>DisableSorting\<close> set, a first call
  whose loop visits \<^verbatim>\<open>b\<close> and then \<^verbatim>\<open>a\<close>, and a second call on the entry it returns whose loop
  visits \<^verbatim>\<open>a\<close> and then \<^verbatim>\<open>b\<close>, return different bytes.
\<close>

theorem second_call_follows_range_order:
  "rangeOrder (Data entry_ab) [''b'', ''a'']
   \<and> Format sample_host (plain_config\<lparr>DisableSorting := True\<rparr>) entry_ab [''b'', ''a'']
       = Inr ((''time='' @ [dquote] @ ''Jan  1 00:00:00'' @ [dquote]
                 @ '' level=info msg=ready b=1 a=2 '' @ [nl], None), entry_ab)
   \<and> rangeOrder (Data entry_ab) [''a'', ''b'']
   \<and> Format sample_host (plain_config\<lparr>DisableSorting := True\<rparr>) entry_ab [''a'', ''b'']
       = Inr ((''time='' @ [dquote] @ ''Jan  1 00:00:00'' @ [dquote]
                 @ '' level=info msg=ready a=2 b=1 '' @ [nl], None), entry_ab)
   \<and> ''time='' @ [dquote] @ ''Jan  1 00:00:00'' @ [dquote]
         @ '' level=info msg=ready b=1 a=2 '' @ [nl]
     \<noteq> ''time='' @ [dquote] @ ''Jan  1 00:00:00'' @ [dquote]
         @ '' level=info msg=ready a=2 b=1 '' @ [nl]"
proof -
  have b: "rangeOrder (Data entry_ab) [''b'', ''a'']" "rangeOrder (Data entry_ab) [''a'', ''b'']"
    by (auto simp: rangeOrder_def entry_ab_def)
  have nc: "\<not> isColored sample_host (plain_config\<lparr>DisableSorting := True\<rparr>)"
    by (simp add: isColored_def plain_config_def)
  show ?thesis
    using b unfolding Format_plain [OF nc]
    by (simp add: eval_plain eval_quote sample_host_def plain_config_def entry_ab_def
                  digits.simps Itoa_def)
qed

section \<open>The line without colors\<close>

text \<open>
  Claim C3, amended.  On the path without colors, which a call takes when colors are
  disabled and also when they are neither forced nor supported by the terminal, a call
  that is not one of those that panic returns \<^verbatim>\<open>time=<value> \<close> (left out when
  \<^verbatim>\<open>DisableTimestamp\<close> is set), \<^verbatim>\<open>level=<value> \<close>, \<^verbatim>\<open>msg=<value> \<close> (left out when the message
  is empty), then \<^verbatim>\<open>key=<value> \<close> for every rendered key in order, then a newline; there is
  a space before the newline.  When \<^verbatim>\<open>DisableSorting\<close> is not set, the outcome is the same
  for every order in which the loop over the map may visit the keys.
\<close>

theorem plain_output_template:
  assumes "\<not> isColored h f"
  shows "Format h f entry ks
      = (if Format_panics h f entry ks then Inl Error_method_panic
         else
           Inr (((if DisableTimestamp f then []
                  else ''time='' @ valueText h (VString (Time_Format h (Time entry) (layout f))) @ '' '')
                 @ ''level='' @ valueText h (VString (Level_String (Level entry))) @ '' ''
                 @ (if Message entry = [] then []
                    else ''msg='' @ valueText h (VString (Message entry)) @ '' '')
                 @ concat (map (\<lambda>k. k @ ''='' @ valueText h (index (prefixFieldClashes (Data entry)) k) @ '' '')
                               (rendered_keys f ks))
                 @ [nl], None),
                after_Format entry))
     \<and> (Format_panics h f entry ks
        \<or> (\<exists>body. Format h f entry ks = Inr ((body @ '' '' @ [nl], None), after_Format entry)))
     \<and> (\<not> DisableSorting f \<and> rangeOrder (Data entry) ks \<and> rangeOrder (Data entry) ks'
          \<longrightarrow> Format h f entry ks' = Format h f entry ks)"
proof -
  have nc: "\<not> isColored h f" using assms .
  have 1: "Format h f entry ks
    = (if Format_panics h f entry ks then Inl Error_method_panic
       else Inr ((plain_line h f (after_Format entry) (rendered_keys f ks) @ [nl], None),
                 after_Format entry))"
    using nc by (rule Format_plain)
  have 2: "\<exists>body. Format h f entry ks = Inr ((body @ '' '' @ [nl], None), after_Format entry)"
    if "\<not> Format_panics h f entry ks"
    using plain_line_ends [of h f "after_Format entry" "rendered_keys f ks"] 1 that by auto
  have 3: "Format h f entry ks' = Format h f entry ks"
    if "\<not> DisableSorting f" "rangeOrder (Data entry) ks" "rangeOrder (Data entry) ks'"
    using rendered_keys_rangeOrder [OF that] by (rule Format_keys_cong)
  have 4: "plain_line h f (after_Format entry) (rendered_keys f ks)
      = (if DisableTimestamp f then []
         else ''time='' @ valueText h (VString (Time_Format h (Time entry) (layout f))) @ '' '')
        @ ''level='' @ valueText h (VString (Level_String (Level entry))) @ '' ''
        @ (if Message entry = [] then []
           else ''msg='' @ valueText h (VString (Message entry)) @ '' '')
        @ concat (map (\<lambda>k. k @ ''='' @ valueText h (index (prefixFieldClashes (Data entry)) k) @ '' '')
                      (rendered_keys f ks))"
    by (simp add: plain_line_def plain_fields_def after_Format_def)
  show ?thesis
  proof (intro conjI)
    show "Format h f entry ks
      = (if Format_panics h f entry ks then Inl Error_method_panic
         else
           Inr (((if DisableTimestamp f then []
                  else ''time='' @ valueText h (VString (Time_Format h (Time entry) (layout f))) @ '' '')
                 @ ''level='' @ valueText h (VString (Level_String (Level entry))) @ '' ''
                 @ (if Message entry = [] then []
                    else ''msg='' @ valueText h (VString (Message entry)) @ '' '')
                 @ concat (map (\<lambda>k. k @ ''='' @ valueText h (index (prefixFieldClashes (Data entry)) k) @ '' '')
                               (rendered_keys f ks))
                 @ [nl], None),
                after_Format entry))"
      unfolding 1 4 by simp
    show "Format_panics h f entry ks
        \<or> (\<exists>body. Format h f entry ks = Inr ((body @ '' '' @ [nl], None), after_Format entry))"
      using 2 by blast
    show "\<not> DisableSorting f \<and> rangeOrder (Data entry) ks \<and> rangeOrder (Data entry) ks'
          \<longrightarrow> Format h f entry ks' = Format h f entry ks"
      using 3 by blast
  qed
qed

text \<open>Claim C3 at the sample entry with the fields \<^verbatim>\<open>b\<close> and \<^verbatim>\<open>a\<close>.\<close>

theorem plain_output_template_witness:
  "\<not> isColored sample_host plain_config \<and> \<not> DisableSorting plain_config
   \<and> \<not> Format_panics sample_host plain_config entry_ab [''b'', ''a'']
   \<and> rangeOrder (Data entry_ab) [''b'', ''a''] \<and> rangeOrder (Data entry_ab) [''a'', ''b'']
   \<and> Format sample_host plain_config entry_ab [''a'', ''b'']
       = Format sample_host plain_config entry_ab [''b'', ''a'']
   \<and> Format sample_host plain_config entry_ab [''b'', ''a'']
       = Inr ((''time='' @ [dquote] @ ''Jan  1 00:00:00'' @ [dquote]
                 @ '' level=info msg=ready a=2 b=1 '' @ [nl], None), entry_ab)"
proof -
  have a: "\<not> isColored sample_host plain_config" "\<not> DisableSorting plain_config"
    by (simp_all add: isColored_def plain_config_def)
  have b: "rangeOrder (Data entry_ab) [''b'', ''a'']" "rangeOrder (Data entry_ab) [''a'', ''b'']"
    by (auto simp: rangeOrder_def entry_ab_def)
  have c: "after_Format entry_ab = entry_ab"
    by (simp add: after_Format_def prefixFieldClashes_def entry_ab_def)
  have np: "\<not> Format_panics sample_host plain_config entry_ab [''b'', ''a'']"
    by (simp add: eval_plain entry_ab_def)
  show ?thesis
    using a b np plain_output_template [OF a(1), of entry_ab "[''b'', ''a'']" "[''a'', ''b'']"]
    unfolding c
    by (simp add: eval_plain eval_quote sample_host_def plain_config_def entry_ab_def
                  digits.simps Itoa_def)
qed

text \<open>
  Claim C3 as written asks for one output for one entry and configuration.  With
  \<^verbatim>\<open>DisableSorting\<close> set the same entry gives two different lines for the two orders in
  which the loop may visit its two keys.
\<close>

theorem plain_output_follows_range_order:
  "rangeOrder (Data entry_ab) [''b'', ''a''] \<and> rangeOrder (Data entry_ab) [''a'', ''b'']
   \<and> Format sample_host (plain_config\<lparr>DisableSorting := True\<rparr>) entry_ab [''b'', ''a'']
       = Inr ((''time='' @ [dquote] @ ''Jan  1 00:00:00'' @ [dquote]
                 @ '' level=info msg=ready b=1 a=2 '' @ [nl], None), entry_ab)
   \<and> Format sample_host (plain_config\<lparr>DisableSorting := True\<rparr>) entry_ab [''a'', ''b'']
       = Inr ((''time='' @ [dquote] @ ''Jan  1 00:00:00'' @ [dquote]
                 @ '' level=info msg=ready a=2 b=1 '' @ [nl], None), entry_ab)"
proof -
  have b: "rangeOrder (Data entry_ab) [''b'', ''a'']" "rangeOrder (Data entry_ab) [''a'', ''b'']"
    by (auto simp: rangeOrder_def entry_ab_def)
  have nc: "\<not> isColored sample_host (plain_config\<lparr>DisableSorting := True\<rparr>)"
    by (simp add: isColored_def plain_config_def)
  show ?thesis
    using b unfolding Format_plain [OF nc]
    by (simp add: eval_plain eval_quote sample_host_def plain_config_def entry_ab_def
                  digits.simps Itoa_def)
qed

section \<open>The order of the fields\<close>

text \<open>
  Claim C4, amended.  On both paths a call that is not one of those that panic renders
  the fields for the keys \<open>rendered_keys\<close>, in that order.  When \<^verbatim>\<open>DisableSorting\<close> is not set these are the keys other
  than \<^verbatim>\<open>prefix\<close> in ascending order, where strings compare byte by byte; the order does
  not depend on the loop over the map.  When \<^verbatim>\<open>DisableSorting\<close> is set they are the keys
  other than \<^verbatim>\<open>prefix\<close> in the order in which the loop over the map visits them.
\<close>

theorem field_order:
  "Format h f entry ks
     = (if Format_panics h f entry ks then Inl Error_method_panic
        else Inr ((line_before_fields h f entry @ fields_text h f entry (rendered_keys f ks)
                     @ [nl], None), after_Format entry))
   \<and> (\<not> DisableSorting f \<longrightarrow>
        rendered_keys f ks = sort (filter (\<lambda>k. k \<noteq> ''prefix'') ks)
        \<and> sorted (rendered_keys f ks)
        \<and> (rangeOrder (Data entry) ks \<longrightarrow>
             distinct (rendered_keys f ks)
             \<and> set (rendered_keys f ks) = dom (Data entry) - {''prefix''}))
   \<and> (DisableSorting f \<longrightarrow> rendered_keys f ks = filter (\<lambda>k. k \<noteq> ''prefix'') ks)"
proof -
  have 1: "\<not> DisableSorting f \<Longrightarrow> rendered_keys f ks = sort (filter (\<lambda>k. k \<noteq> ''prefix'') ks)"
    by (simp add: rendered_keys_def)
  have 2: "DisableSorting f \<Longrightarrow> rendered_keys f ks = filter (\<lambda>k. k \<noteq> ''prefix'') ks"
    by (simp add: rendered_keys_def)
  show ?thesis
    using Format_fields [of h f entry ks] rendered_keys_sorted [of f ks]
          rendered_keys_set [of "Data entry" ks f] 1 2
    by blast
qed

text \<open>
  Claim C4 at the sample entry with the fields \<^verbatim>\<open>b\<close> and \<^verbatim>\<open>a\<close>, visited in that order: sorted
  without and with colors, and in the order of the loop when sorting is disabled.
\<close>

theorem field_order_witness:
  "\<not> DisableSorting plain_config
   \<and> rangeOrder (Data entry_ab) [''b'', ''a'']
   \<and> rendered_keys plain_config [''b'', ''a''] = [''a'', ''b'']
   \<and> Format sample_host plain_config entry_ab [''b'', ''a'']
       = Inr ((''time='' @ [dquote] @ ''Jan  1 00:00:00'' @ [dquote]
                 @ '' level=info msg=ready a=2 b=1 '' @ [nl], None), entry_ab)
   \<and> Format sample_host color_config entry_ab [''b'', ''a'']
       = Inr ((esc ''90'' @ ''[Jan  1 00:00:00]'' @ esc ''0'' @ '' '' @ esc ''32'' @ '' INFO''
                 @ esc ''0'' @ '' ready '' @ esc ''32'' @ ''a'' @ esc ''0'' @ ''=2 ''
                 @ esc ''32'' @ ''b'' @ esc ''0'' @ ''=1'' @ [nl], None), entry_ab)
   \<and> DisableSorting (plain_config\<lparr>DisableSorting := True\<rparr>)
   \<and> rendered_keys (plain_config\<lparr>DisableSorting := True\<rparr>) [''b'', ''a''] = [''b'', ''a'']
   \<and> Format sample_host (plain_config\<lparr>DisableSorting := True\<rparr>) entry_ab [''b'', ''a'']
       = Inr ((''time='' @ [dquote] @ ''Jan  1 00:00:00'' @ [dquote]
                 @ '' level=info msg=ready b=1 a=2 '' @ [nl], None), entry_ab)"
proof -
  have a: "\<not> DisableSorting plain_config"
    "DisableSorting (plain_config\<lparr>DisableSorting := True\<rparr>)"
    by (simp_all add: plain_config_def)
  have b: "rangeOrder (Data entry_ab) [''b'', ''a'']"
    by (auto simp: rangeOrder_def entry_ab_def)
  have c: "\<not> isColored sample_host plain_config"
    "\<not> isColored sample_host (plain_config\<lparr>DisableSorting := True\<rparr>)"
    "isColored sample_host color_config"
    by (simp_all add: isColored_def plain_config_def color_config_def)
  show ?thesis
    using a b
      field_order [of sample_host plain_config entry_ab "[''b'', ''a'']"]
      field_order [of sample_host color_config entry_ab "[''b'', ''a'']"]
      field_order [of sample_host "plain_config\<lparr>DisableSorting := True\<rparr>" entry_ab "[''b'', ''a'']"]
    unfolding after_Format_entry_ab
    by (simp add: c line_before_fields_def fields_text_def eval_colored eval_plain eval_quote
                  sample_host_def color_config_def plain_config_def entry_ab_def
                  digits.simps Itoa_def)
qed

text \<open>
  Claim C4 as written has the fields in the order of insertion when \<^verbatim>\<open>DisableSorting\<close> is
  set.  A map does not record that order: the map filled with \<^verbatim>\<open>b\<close> and then \<^verbatim>\<open>a\<close> is the map
  filled with \<^verbatim>\<open>a\<close> and then \<^verbatim>\<open>b\<close>, the loop may visit \<^verbatim>\<open>a\<close> first, and then \<^verbatim>\<open>a\<close> is rendered
  first.
\<close>

theorem insertion_order_not_kept:
  "[''b'' \<mapsto> VInt 1, ''a'' \<mapsto> VInt 2] = [''a'' \<mapsto> VInt 2, ''b'' \<mapsto> VInt 1]
   \<and> rangeOrder [''b'' \<mapsto> VInt 1, ''a'' \<mapsto> VInt 2] [''a'', ''b'']
   \<and> Format sample_host (plain_config\<lparr>DisableSorting := True\<rparr>)
         \<lparr>Data = [''b'' \<mapsto> VInt 1, ''a'' \<mapsto> VInt 2], Time = 0, Level = InfoLevel,
          Message = ''ready''\<rparr> [''a'', ''b'']
       = Inr ((''time='' @ [dquote] @ ''Jan  1 00:00:00'' @ [dquote]
                 @ '' level=info msg=ready a=2 b=1 '' @ [nl], None),
              \<lparr>Data = [''b'' \<mapsto> VInt 1, ''a'' \<mapsto> VInt 2], Time = 0, Level = InfoLevel,
               Message = ''ready''\<rparr>)"
proof -
  have m: "[''b'' \<mapsto> VInt 1, ''a'' \<mapsto> VInt 2] = [''a'' \<mapsto> VInt 2, ''b'' \<mapsto> VInt 1]"
    by (rule fun_upd_twist) simp
  have r: "rangeOrder [''b'' \<mapsto> VInt 1, ''a'' \<mapsto> VInt 2] [''a'', ''b'']"
    by (auto simp: rangeOrder_def)
  have nc: "\<not> isColored sample_host (plain_config\<lparr>DisableSorting := True\<rparr>)"
    by (simp add: isColored_def plain_config_def)
  have f: "Format sample_host (plain_config\<lparr>DisableSorting := True\<rparr>)
         \<lparr>Data = [''b'' \<mapsto> VInt 1, ''a'' \<mapsto> VInt 2], Time = 0, Level = InfoLevel,
          Message = ''ready''\<rparr> [''a'', ''b'']
       = Inr ((''time='' @ [dquote] @ ''Jan  1 00:00:00'' @ [dquote]
                 @ '' level=info msg=ready a=2 b=1 '' @ [nl], None),
              \<lparr>Data = [''b'' \<mapsto> VInt 1, ''a'' \<mapsto> VInt 2], Time = 0, Level = InfoLevel,
               Message = ''ready''\<rparr>)"
    unfolding Format_plain [OF nc]
    by (simp add: eval_plain eval_quote sample_host_def plain_config_def digits.simps Itoa_def)
  show ?thesis using m r f by blast
qed

section \<open>Quoting of values\<close>




section \<open>The prefix tag\<close>

text \<open>
  Claim C6, amended.  On the colored path the line is the colored line for a prefix tag and a
  displayed message chosen as follows.  When the map has the field \<^verbatim>\<open>prefix\<close>, the tag is
  its value and the message is displayed as it is, whatever it begins with.  When it has
  none and the message begins with a bracketed tag (a \<^verbatim>\<open>[\<close>, a tag that is not empty and
  has no \<^verbatim>\<open>]\<close> and no newline in it, a \<^verbatim>\<open>]\<close>), the tag is that tag and the displayed message
  is the rest with the white space around it trimmed.  When it has none and the message
  does not begin so, no tag is rendered and the message is displayed as it is.
\<close>

theorem prefix_precedence:
  assumes "isColored h f"
  shows "(Data entry ''prefix'' = Some v \<longrightarrow>
            Format h f entry ks
              = Inr ((colored_line h f (after_Format entry) (rendered_keys f ks) (layout f)
                        (Some (Sprint v)) (Message entry) @ [nl], None), after_Format entry))
       \<and> (Data entry ''prefix'' = None \<and> Message entry = ''['' @ tag @ '']'' @ rest
            \<and> tag \<noteq> [] \<and> CHR '']'' \<notin> set tag \<and> nl \<notin> set tag \<longrightarrow>
            Format h f entry ks
              = Inr ((colored_line h f (after_Format entry) (rendered_keys f ks) (layout f)
                        (Some tag) (TrimSpace rest) @ [nl], None), after_Format entry))
       \<and> (Data entry ''prefix'' = None
            \<and> \<not> (\<exists>t r. Message entry = ''['' @ t @ '']'' @ r \<and> t \<noteq> []
                         \<and> CHR '']'' \<notin> set t \<and> nl \<notin> set t) \<longrightarrow>
            Format h f entry ks
              = Inr ((colored_line h f (after_Format entry) (rendered_keys f ks) (layout f)
                        None (Message entry) @ [nl], None), after_Format entry))"
  unfolding Format_colored [OF assms]
  using prefix_and_message_field [of entry v] prefix_and_message_tag [of entry tag rest]
        prefix_and_message_none [of entry]
  by auto

text \<open>
  Claim C6 at three sample entries: one with the field \<^verbatim>\<open>prefix\<close> and a message that
  begins with \<^verbatim>\<open>[worker]\<close>, one with that message and no field, one with neither.
\<close>

theorem prefix_precedence_witness:
  "isColored sample_host color_config
   \<and> Data entry_worker ''prefix'' = Some (VString ''db'')
   \<and> Format sample_host color_config entry_worker [''prefix'']
       = Inr ((esc ''90'' @ ''[Jan  1 00:00:00]'' @ esc ''0'' @ '' '' @ esc ''32'' @ '' INFO''
                 @ esc ''0'' @ '' '' @ esc ''36'' @ ''db:'' @ esc ''0''
                 @ '' [worker] started job'' @ [nl], None), entry_worker)
   \<and> Data entry_job ''prefix'' = None
   \<and> Message entry_job = ''['' @ ''worker'' @ '']'' @ '' started job''
   \<and> Format sample_host color_config entry_job []
       = Inr ((esc ''90'' @ ''[Jan  1 00:00:00]'' @ esc ''0'' @ '' '' @ esc ''32'' @ '' INFO''
                 @ esc ''0'' @ '' '' @ esc ''36'' @ ''worker:'' @ esc ''0''
                 @ '' started job'' @ [nl], None), entry_job)
   \<and> Data entry_hello ''prefix'' = None
   \<and> \<not> (\<exists>t r. Message entry_hello = ''['' @ t @ '']'' @ r \<and> t \<noteq> []
               \<and> CHR '']'' \<notin> set t \<and> nl \<notin> set t)
   \<and> Format sample_host color_config entry_hello [''greeting'']
       = Inr ((esc ''90'' @ ''[Jan  1 00:00:00]'' @ esc ''0'' @ '' '' @ esc ''32'' @ '' INFO''
                 @ esc ''0'' @ '' ready '' @ esc ''32'' @ ''greeting'' @ esc ''0''
                 @ ''=hello world'' @ [nl], None), entry_hello)"
proof -
  have c: "isColored sample_host color_config" by (rule color_config_colored)
  have w: "Data entry_worker ''prefix'' = Some (VString ''db'')"
    by (simp add: entry_worker_def)
  have j: "Data entry_job ''prefix'' = None"
    "Message entry_job = ''['' @ ''worker'' @ '']'' @ '' started job''"
    "''worker'' \<noteq> []" "CHR '']'' \<notin> set ''worker''" "nl \<notin> set ''worker''"
    by (simp_all add: entry_job_def nl_def)
  have n: "Data entry_hello ''prefix'' = None"
    "\<not> (\<exists>t r. Message entry_hello = ''['' @ t @ '']'' @ r \<and> t \<noteq> []
               \<and> CHR '']'' \<notin> set t \<and> nl \<notin> set t)"
    by (simp_all add: entry_hello_def)
  have 1: "Format sample_host color_config entry_worker [''prefix'']
       = Inr ((esc ''90'' @ ''[Jan  1 00:00:00]'' @ esc ''0'' @ '' '' @ esc ''32'' @ '' INFO''
                 @ esc ''0'' @ '' '' @ esc ''36'' @ ''db:'' @ esc ''0''
                 @ '' [worker] started job'' @ [nl], None), entry_worker)"
    using prefix_precedence [OF c, where entry = entry_worker and v = "VString ''db''"
            and ks = "[''prefix'']"] w
    unfolding after_Format_entry_worker
    by (simp add: eval_line rendered_keys_def layout_def sample_host_def color_config_def
                  entry_worker_def Decode_ascii ord_def char_of_eq_iff InfoLevel_def
                  WarnLevel_def Level_String_def DebugLevel_def ErrorLevel_def FatalLevel_def
                  PanicLevel_def)
  have 2: "Format sample_host color_config entry_job []
       = Inr ((esc ''90'' @ ''[Jan  1 00:00:00]'' @ esc ''0'' @ '' '' @ esc ''32'' @ '' INFO''
                 @ esc ''0'' @ '' '' @ esc ''36'' @ ''worker:'' @ esc ''0''
                 @ '' started job'' @ [nl], None), entry_job)"
    using prefix_precedence [OF c, where entry = entry_job and tag = "''worker''"
            and rest = "'' started job''" and ks = "[]"] j
    unfolding after_Format_entry_job TrimSpace_started_job
    by (simp add: eval_line rendered_keys_def layout_def sample_host_def color_config_def
                  entry_job_def Decode_ascii ord_def char_of_eq_iff InfoLevel_def
                  WarnLevel_def Level_String_def DebugLevel_def ErrorLevel_def FatalLevel_def
                  PanicLevel_def)
  have 3: "Format sample_host color_config entry_hello [''greeting'']
       = Inr ((esc ''90'' @ ''[Jan  1 00:00:00]'' @ esc ''0'' @ '' '' @ esc ''32'' @ '' INFO''
                 @ esc ''0'' @ '' ready '' @ esc ''32'' @ ''greeting'' @ esc ''0''
                 @ ''=hello world'' @ [nl], None), entry_hello)"
    using prefix_precedence [OF c, where entry = entry_hello and ks = "[''greeting'']"] n
    unfolding after_Format_entry_hello
    by (simp add: eval_line rendered_keys_def layout_def sample_host_def color_config_def
                  entry_hello_def Decode_ascii ord_def char_of_eq_iff InfoLevel_def
                  WarnLevel_def Level_String_def DebugLevel_def ErrorLevel_def FatalLevel_def
                  PanicLevel_def index_def)
  show ?thesis using c w j(1,2) n 1 2 3 by blast
qed

text \<open>
  Claim C6 as written takes the tag from every message that begins with a bracketed tag
  and strips the white space that follows the bracket.  With the empty tag \<^verbatim>\<open>[]\<close> no tag is
  rendered and the message is displayed as it is, brackets included; white space at the
  end of the message is trimmed as well; and a bracket that closes after a newline is no
  tag.
\<close>

theorem bracket_not_always_a_tag:
  "Data entry_empty_tag ''prefix'' = None
   \<and> Message entry_empty_tag = ''[] started job''
   \<and> Format sample_host color_config entry_empty_tag []
       = Inr ((esc ''90'' @ ''[Jan  1 00:00:00]'' @ esc ''0'' @ '' '' @ esc ''32'' @ '' INFO''
                 @ esc ''0'' @ '' [] started job'' @ [nl], None), entry_empty_tag)
   \<and> Data entry_trailing_space ''prefix'' = None
   \<and> Message entry_trailing_space = ''[worker] started job ''
   \<and> Format sample_host color_config entry_trailing_space []
       = Inr ((esc ''90'' @ ''[Jan  1 00:00:00]'' @ esc ''0'' @ '' '' @ esc ''32'' @ '' INFO''
                 @ esc ''0'' @ '' '' @ esc ''36'' @ ''worker:'' @ esc ''0''
                 @ '' started job'' @ [nl], None), entry_trailing_space)
   \<and> Data entry_broken_tag ''prefix'' = None
   \<and> Message entry_broken_tag = ''[wor'' @ [nl] @ ''ker] started job''
   \<and> Format sample_host color_config entry_broken_tag []
       = Inr ((esc ''90'' @ ''[Jan  1 00:00:00]'' @ esc ''0'' @ '' '' @ esc ''32'' @ '' INFO''
                 @ esc ''0'' @ '' [wor'' @ [nl] @ ''ker] started job'' @ [nl], None),
              entry_broken_tag)"
proof -
  have c: "isColored sample_host color_config" by (rule color_config_colored)
  have a: "after_Format entry_empty_tag = entry_empty_tag"
    "after_Format entry_trailing_space = entry_trailing_space"
    "after_Format entry_broken_tag = entry_broken_tag"
    by (simp_all add: after_Format_no_fields entry_empty_tag_def entry_trailing_space_def
                      entry_broken_tag_def)
  have 1: "Format sample_host color_config entry_empty_tag []
       = Inr ((esc ''90'' @ ''[Jan  1 00:00:00]'' @ esc ''0'' @ '' '' @ esc ''32'' @ '' INFO''
                 @ esc ''0'' @ '' [] started job'' @ [nl], None), entry_empty_tag)"
    unfolding Format_colored [OF c] a prefix_and_message_empty_tag
    by (simp add: eval_line rendered_keys_def layout_def sample_host_def color_config_def
                  entry_empty_tag_def Decode_ascii ord_def char_of_eq_iff level_defs
                  Level_String_def)
  have 2: "Format sample_host color_config entry_trailing_space []
       = Inr ((esc ''90'' @ ''[Jan  1 00:00:00]'' @ esc ''0'' @ '' '' @ esc ''32'' @ '' INFO''
                 @ esc ''0'' @ '' '' @ esc ''36'' @ ''worker:'' @ esc ''0''
                 @ '' started job'' @ [nl], None), entry_trailing_space)"
    unfolding Format_colored [OF c] a prefix_and_message_trailing_space
    by (simp add: eval_line rendered_keys_def layout_def sample_host_def color_config_def
                  entry_trailing_space_def Decode_ascii ord_def char_of_eq_iff level_defs
                  Level_String_def)
  have 3: "Format sample_host color_config entry_broken_tag []
       = Inr ((esc ''90'' @ ''[Jan  1 00:00:00]'' @ esc ''0'' @ '' '' @ esc ''32'' @ '' INFO''
                 @ esc ''0'' @ '' [wor'' @ [nl] @ ''ker] started job'' @ [nl], None),
              entry_broken_tag)"
    unfolding Format_colored [OF c] a prefix_and_message_broken_tag
    by (simp add: eval_line rendered_keys_def layout_def sample_host_def color_config_def
                  entry_broken_tag_def Decode_ascii ord_def char_of_eq_iff level_defs
                  Level_String_def)
  show ?thesis using 1 2 3
    by (simp add: entry_empty_tag_def entry_trailing_space_def entry_broken_tag_def)
qed

section \<open>Messages of several lines\<close>

text \<open>
  Claim C7.  On the colored path with \<^verbatim>\<open>IndentMultilineMessage\<close> set, let \<open>tag\<close> and
  \<open>message\<close> be the prefix tag and the displayed message.  The message is written line by
  line, and every line after the first begins with as many spaces as the visible header
  is long.  That length is the length of the header written minus the bytes of its color
  sequences: the dim marker, the color of the level and two resets, and the color of the
  tag and one more reset when a tag is rendered.
\<close>

theorem multiline_indent:
  assumes "isColored h f" "IndentMultilineMessage f"
    and "prefix_and_message entry = (tag, message)"
  shows "Format h f entry ks
      = Inr ((colored_header h f entry (layout f) tag
              @ messageFormat f
                  (joinLines
                     (hd (splitLines message)
                      # map (\<lambda>l. replicate (length (visible_header h f entry (layout f) tag)) sp @ l)
                            (tl (splitLines message))))
              @ colored_fields h (levelColor h (Level entry)) (prefixFieldClashes (Data entry))
                  (rendered_keys f ks)
              @ [nl], None), after_Format entry)
     \<and> joinLines (splitLines message) = message
     \<and> (\<forall>l \<in> set (splitLines message). nl \<notin> set l)
     \<and> length (visible_header h f entry (layout f) tag)
         = length (colored_header h f entry (layout f) tag) - color_bytes h entry tag
     \<and> color_bytes h entry tag
         = length (ansi_LightBlack h) + length (levelColor h (Level entry)) + 2 * length (reset h)
           + (if tag = None then 0 else length (ansi_Cyan h) + length (reset h))"
proof -
  have 1: "Format h f entry ks
      = Inr ((colored_header h f entry (layout f) tag
              @ messageFormat f
                  (joinLines
                     (hd (splitLines message)
                      # map (\<lambda>l. replicate (length (visible_header h f entry (layout f) tag)) sp @ l)
                            (tl (splitLines message))))
              @ colored_fields h (levelColor h (Level entry)) (prefixFieldClashes (Data entry))
                  (rendered_keys f ks)
              @ [nl], None), after_Format entry)"
    unfolding Format_colored [OF assms(1)]
    using assms(2,3)
    by (simp add: colored_line_def colored_header_after visible_header_after after_Format_sel)
  have 2: "joinLines (splitLines message) = message" by (rule joinLines_splitLines)
  have 3: "\<forall>l \<in> set (splitLines message). nl \<notin> set l" using splitLines_no_nl by blast
  have 4: "length (visible_header h f entry (layout f) tag)
         = length (colored_header h f entry (layout f) tag) - color_bytes h entry tag"
    by (simp add: header_length)
  have 5: "color_bytes h entry tag
         = length (ansi_LightBlack h) + length (levelColor h (Level entry)) + 2 * length (reset h)
           + (if tag = None then 0 else length (ansi_Cyan h) + length (reset h))"
    by (simp add: color_bytes_def split: option.split)
  show ?thesis using 1 2 3 4 5 by blast
qed

text \<open>
  Claim C7 at a warning with the message \<^verbatim>\<open>[worker] line one\<close>, newline, \<^verbatim>\<open>line two\<close>: the
  visible header has 32 bytes and the second line begins with 32 spaces.
\<close>

theorem multiline_indent_witness:
  "isColored sample_host (color_config\<lparr>IndentMultilineMessage := True\<rparr>)
   \<and> IndentMultilineMessage (color_config\<lparr>IndentMultilineMessage := True\<rparr>)
   \<and> prefix_and_message entry_two_lines = (Some ''worker'', ''line one'' @ [nl] @ ''line two'')
   \<and> splitLines (''line one'' @ [nl] @ ''line two'') = [''line one'', ''line two'']
   \<and> visible_header sample_host (color_config\<lparr>IndentMultilineMessage := True\<rparr>)
         entry_two_lines time_Stamp (Some ''worker'') = ''[Jan  1 00:00:00]  WARN worker: ''
   \<and> length ''[Jan  1 00:00:00]  WARN worker: '' = 32
   \<and> Format sample_host (color_config\<lparr>IndentMultilineMessage := True\<rparr>) entry_two_lines []
       = Inr ((esc ''90'' @ ''[Jan  1 00:00:00]'' @ esc ''0'' @ '' '' @ esc ''33'' @ '' WARN''
                 @ esc ''0'' @ '' '' @ esc ''36'' @ ''worker:'' @ esc ''0'' @ '' line one''
                 @ [nl] @ replicate 32 sp @ ''line two'' @ [nl], None), entry_two_lines)"
proof -
  let ?f = "color_config\<lparr>IndentMultilineMessage := True\<rparr>"
  have c: "isColored sample_host ?f" "IndentMultilineMessage ?f"
    by (simp_all add: isColored_def color_config_def)
  have m: "Data entry_two_lines ''prefix'' = None"
    "Message entry_two_lines = ''['' @ ''worker'' @ '']'' @ ('' line one'' @ [nl] @ ''line two'')"
    "''worker'' \<noteq> []" "CHR '']'' \<notin> set ''worker''" "nl \<notin> set ''worker''"
    by (simp_all add: entry_two_lines_def nl_def)
  have p: "prefix_and_message entry_two_lines = (Some ''worker'', ''line one'' @ [nl] @ ''line two'')"
    using prefix_and_message_tag [OF m] by (simp only: TrimSpace_two_lines)
  have s: "splitLines (''line one'' @ [nl] @ ''line two'') = [''line one'', ''line two'']"
    by (simp add: nl_def)
  have v: "visible_header sample_host ?f entry_two_lines time_Stamp (Some ''worker'')
      = ''[Jan  1 00:00:00]  WARN worker: ''"
    by (simp add: eval_line sample_host_def color_config_def entry_two_lines_def Decode_ascii
                  ord_def level_defs)
  have l: "layout ?f = time_Stamp" by (simp add: layout_def color_config_def)
  have r: "replicate 32 sp = ''                                ''"
    by (simp add: numeral_eq_Suc sp_def)
  have "Format sample_host ?f entry_two_lines []
       = Inr ((esc ''90'' @ ''[Jan  1 00:00:00]'' @ esc ''0'' @ '' '' @ esc ''33'' @ '' WARN''
                 @ esc ''0'' @ '' '' @ esc ''36'' @ ''worker:'' @ esc ''0'' @ '' line one''
                 @ [nl] @ replicate 32 sp @ ''line two'' @ [nl], None), entry_two_lines)"
    using multiline_indent [OF c p, of "[]"]
    unfolding after_Format_entry_two_lines l v s r
    by (simp add: eval_line rendered_keys_def sample_host_def color_config_def
                  entry_two_lines_def Decode_ascii ord_def level_defs nl_def)
  then show ?thesis using c p s v by simp
qed

section \<open>The level label\<close>

text \<open>
  Claim C8.  On the colored path the label follows the color of the level.  For the
  level \<^verbatim>\<open>Warn\<close> it is \<^verbatim>\<open>WARN\<close>, whatever the name of the level; for every other level it is
  the name of the level in upper case.  The label is padded with spaces on the left to
  five characters.
\<close>

theorem level_label:
  assumes "isColored h f"
  shows "(\<exists>rest. Format h f entry ks
            = Inr ((ansi_LightBlack h @ timestampBlock h f entry (layout f) @ reset h @ '' ''
                    @ levelColor h (Level entry) @ levelLabel (Level entry) @ reset h @ rest,
                    None), after_Format entry))
     \<and> levelLabel WarnLevel = '' WARN''
     \<and> (Level entry \<noteq> WarnLevel \<longrightarrow>
          levelLabel (Level entry)
            = replicate (5 - length (Level_String (Level entry))) sp
              @ ToUpper (Level_String (Level entry)))"
proof -
  have "Format h f entry ks
     = Inr ((ansi_LightBlack h @ timestampBlock h f entry (layout f) @ reset h @ '' ''
              @ levelColor h (Level entry) @ levelLabel (Level entry) @ reset h
              @ (debugInf h (Level entry) @ prefixTag h (fst (prefix_and_message entry)) @ '' ''
                 @ drop (length (colored_header h f entry (layout f) (fst (prefix_and_message entry))))
                     (colored_line h f (after_Format entry) (rendered_keys f ks) (layout f)
                        (fst (prefix_and_message entry)) (snd (prefix_and_message entry)))
                 @ [nl]), None), after_Format entry)"
    unfolding Format_colored [OF assms]
    by (simp add: colored_line_def colored_header_def padLeft_levelText timestampBlock_def
                  after_Format_sel)
  then have 1: "\<exists>rest. Format h f entry ks
            = Inr ((ansi_LightBlack h @ timestampBlock h f entry (layout f) @ reset h @ '' ''
                    @ levelColor h (Level entry) @ levelLabel (Level entry) @ reset h @ rest,
                    None), after_Format entry)"
    by blast
  have 2: "levelLabel WarnLevel = '' WARN''" by (simp add: levelLabel_def)
  have 3: "levelLabel l = replicate (5 - length (Level_String l)) sp @ ToUpper (Level_String l)"
    if "l \<noteq> WarnLevel" for l
    using that
    by (simp add: levelLabel_def Level_String_def ToUpper_def sp_def ord_def char_eq_char_of
                  level_defs)
  show ?thesis using 1 2 3 by blast
qed

text \<open>
  Claim C8 at a warning, whose level is named \<^verbatim>\<open>warning\<close>, and at an entry of level
  \<^verbatim>\<open>Info\<close>.
\<close>

theorem level_label_witness:
  "isColored sample_host color_config
   \<and> Level entry_two_lines = WarnLevel
   \<and> Level_String WarnLevel = ''warning''
   \<and> levelLabel (Level entry_two_lines) = '' WARN''
   \<and> Level entry_job \<noteq> WarnLevel
   \<and> levelLabel (Level entry_job) = '' INFO''
   \<and> levelLabel DebugLevel = ''DEBUG''
   \<and> Format sample_host color_config entry_two_lines []
       = Inr ((esc ''90'' @ ''[Jan  1 00:00:00]'' @ esc ''0'' @ '' '' @ esc ''33'' @ '' WARN''
                 @ esc ''0'' @ '' '' @ esc ''36'' @ ''worker:'' @ esc ''0'' @ '' line one''
                 @ [nl] @ ''line two'' @ [nl], None), entry_two_lines)"
proof -
  have c: "isColored sample_host color_config" by (rule color_config_colored)
  have l: "Level entry_two_lines = WarnLevel" "Level_String WarnLevel = ''warning''"
    "Level entry_job \<noteq> WarnLevel"
    by (simp_all add: entry_two_lines_def entry_job_def Level_String_def level_defs)
  have t: "levelLabel (Level entry_two_lines) = '' WARN''"
    "levelLabel (Level entry_job) = '' INFO''" "levelLabel DebugLevel = ''DEBUG''"
    using level_label [OF c, of entry_two_lines "[]"] level_label [OF c, of entry_job "[]"] l
    by (simp_all add: entry_job_def levelLabel_def Level_String_def ToUpper_def sp_def ord_def
                      char_eq_char_of level_defs)
  have m: "Data entry_two_lines ''prefix'' = None"
    "Message entry_two_lines = ''['' @ ''worker'' @ '']'' @ ('' line one'' @ [nl] @ ''line two'')"
    "''worker'' \<noteq> []" "CHR '']'' \<notin> set ''worker''" "nl \<notin> set ''worker''"
    by (simp_all add: entry_two_lines_def nl_def)
  have p: "prefix_and_message entry_two_lines = (Some ''worker'', ''line one'' @ [nl] @ ''line two'')"
    using prefix_and_message_tag [OF m] by (simp only: TrimSpace_two_lines)
  have f: "Format sample_host color_config entry_two_lines []
       = Inr ((esc ''90'' @ ''[Jan  1 00:00:00]'' @ esc ''0'' @ '' '' @ esc ''33'' @ '' WARN''
                 @ esc ''0'' @ '' '' @ esc ''36'' @ ''worker:'' @ esc ''0'' @ '' line one''
                 @ [nl] @ ''line two'' @ [nl], None), entry_two_lines)"
    unfolding Format_colored [OF c] after_Format_entry_two_lines p
    by (simp add: eval_line rendered_keys_def layout_def sample_host_def color_config_def
                  entry_two_lines_def Decode_ascii ord_def level_defs nl_def)
  show ?thesis using c l t f by simp
qed

section \<open>The error result\<close>

text \<open>
  Claim C9, amended.  \<^verbatim>\<open>Format\<close> never returns an error: a call that returns, returns bytes
  and the nil error, and leaves the entry as \<open>after_Format\<close> says.  A call returns unless it
  is one of those that \<open>Format_panics\<close> describes: it takes the path without colors and,
  under a key other than \<^verbatim>\<open>prefix\<close> that the loop over the map visits, the map holds after
  the renaming an error whose method \<^verbatim>\<open>Error()\<close> panics.  Such a call panics, for
  \<^verbatim>\<open>appendKeyValue\<close> calls the method itself.  On the path with colors every call returns:
  there the value is printed by package \<^verbatim>\<open>fmt\<close>, which recovers from the panic.
\<close>

theorem Format_error_result:
  "(if Format_panics h f entry ks then Format h f entry ks = Inl Error_method_panic
    else (\<exists>b. Format h f entry ks = Inr ((b, None), after_Format entry)))
   \<and> (\<forall>b e entry'. Format h f entry ks = Inr ((b, e), entry') \<longrightarrow> e = None)
   \<and> (isColored h f \<longrightarrow> (\<exists>b. Format h f entry ks = Inr ((b, None), after_Format entry)))"
proof -
  have 1: "Format h f entry ks = Inl Error_method_panic" if "Format_panics h f entry ks"
    using that by (simp add: Format_fields)
  have 2: "\<exists>b. Format h f entry ks = Inr ((b, None), after_Format entry)"
    if "\<not> Format_panics h f entry ks"
    using that by (simp add: Format_fields)
  have 3: "e = None" if "Format h f entry ks = Inr ((b, e), entry')" for b e entry'
    using that by (cases "Format_panics h f entry ks") (simp_all add: Format_fields)
  have 4: "\<not> Format_panics h f entry ks" if "isColored h f"
    using that by (rule colored_no_panic)
  show ?thesis using 1 2 3 4 by (simp only: split: if_split) blast
qed

text \<open>
  Claim C9 at the sample entry with the field \<^verbatim>\<open>greeting\<close> on the path without colors, and
  at the sample entry whose field \<^verbatim>\<open>err\<close> is an error whose method panics on the path with
  colors, where the field is printed as \<^verbatim>\<open><nil>\<close>: both calls return the nil error.
\<close>

theorem Format_error_result_witness:
  "\<not> Format_panics sample_host plain_config entry_hello [''greeting'']
   \<and> Format sample_host plain_config entry_hello [''greeting'']
       = Inr ((''time='' @ [dquote] @ ''Jan  1 00:00:00'' @ [dquote] @ '' level=info msg=ready ''
                 @ ''greeting='' @ [dquote] @ ''hello world'' @ [dquote] @ '' '' @ [nl], None),
              after_Format entry_hello)
   \<and> isColored sample_host color_config
   \<and> \<not> Format_panics sample_host color_config entry_nil_error [''err'']
   \<and> Format sample_host color_config entry_nil_error [''err'']
       = Inr ((esc ''90'' @ ''[Jan  1 00:00:00]'' @ esc ''0'' @ '' '' @ esc ''32'' @ '' INFO''
                 @ esc ''0'' @ '' ready '' @ esc ''32'' @ ''err'' @ esc ''0'' @ ''=<nil>''
                 @ [nl], None), after_Format entry_nil_error)"
proof -
  have a: "\<not> Format_panics sample_host plain_config entry_hello [''greeting'']"
    by (simp add: eval_plain entry_hello_def)
  have c: "isColored sample_host color_config" by (rule color_config_colored)
  have d: "\<not> Format_panics sample_host color_config entry_nil_error [''err'']"
    using c by (rule colored_no_panic)
  obtain b where b: "Format sample_host plain_config entry_hello [''greeting'']
      = Inr ((b, None), after_Format entry_hello)"
    using a Format_error_result [of sample_host plain_config entry_hello "[''greeting'']"]
    by auto
  obtain b' where b': "Format sample_host color_config entry_nil_error [''err'']
      = Inr ((b', None), after_Format entry_nil_error)"
    using c Format_error_result [of sample_host color_config entry_nil_error "[''err'']"]
    by auto
  have e: "b = ''time='' @ [dquote] @ ''Jan  1 00:00:00'' @ [dquote] @ '' level=info msg=ready ''
                 @ ''greeting='' @ [dquote] @ ''hello world'' @ [dquote] @ '' '' @ [nl]"
    using b plain_hello by simp
  have g: "b' = esc ''90'' @ ''[Jan  1 00:00:00]'' @ esc ''0'' @ '' '' @ esc ''32'' @ '' INFO''
                 @ esc ''0'' @ '' ready '' @ esc ''32'' @ ''err'' @ esc ''0'' @ ''=<nil>'' @ [nl]"
    using b' colored_nil_error by simp
  show ?thesis using a c d b b' unfolding e g by simp
qed

text \<open>
  Claim C9 as written has every call return.  On the path without colors, whether
  colors are disabled or just not supported, the call on the sample entry whose field
  \<^verbatim>\<open>err\<close> is an error whose method panics does not return: it panics.
\<close>

theorem Format_panics_on_nil_error:
  "rangeOrder (Data entry_nil_error) [''err'']
   \<and> Format sample_host plain_config entry_nil_error [''err''] = Inl Error_method_panic
   \<and> Format sample_host default_config entry_nil_error [''err''] = Inl Error_method_panic
   \<and> \<not> (\<exists>r. Format sample_host plain_config entry_nil_error [''err''] = Inr r)"
proof -
  have r: "rangeOrder (Data entry_nil_error) [''err'']"
    by (auto simp: rangeOrder_def entry_nil_error_def)
  have 1: "Format sample_host plain_config entry_nil_error [''err''] = Inl Error_method_panic"
    unfolding Format_plain [OF plain_config_plain]
    by (simp add: eval_plain plain_config_plain entry_nil_error_def)
  have 2: "Format sample_host default_config entry_nil_error [''err''] = Inl Error_method_panic"
    unfolding Format_plain [OF default_config_plain]
    by (simp add: eval_plain default_config_plain entry_nil_error_def)
  show ?thesis using r 1 2 by simp
qed

section \<open>The field \<^verbatim>\<open>prefix\<close> in a line without colors\<close>

text \<open>
  Claim C10.  On the path without colors, which a call takes when colors are disabled and
  also when they are neither forced nor supported by the terminal, a field named
  \<^verbatim>\<open>prefix\<close> is dropped: whatever the map holds under \<^verbatim>\<open>prefix\<close> (a value \<open>p\<close>, or nothing), the
  outcome is the same.  Unless the call is one of those that panic, which does not depend
  on \<open>p\<close> either, it returns one and the same line, in which \<^verbatim>\<open>prefix\<close> is not among the
  rendered keys and \<^verbatim>\<open>msg\<close> carries the whole message, a leading bracketed tag included.
\<close>

theorem plain_output_ignores_prefix:
  assumes "\<not> isColored h f"
  shows "Format h f (entry\<lparr>Data := (Data entry)(''prefix'' := p)\<rparr>) ks
      = (if Format_panics h f entry ks then Inl Error_method_panic
         else
           Inr (((if DisableTimestamp f then []
                  else ''time='' @ valueText h (VString (Time_Format h (Time entry) (layout f))) @ '' '')
                 @ ''level='' @ valueText h (VString (Level_String (Level entry))) @ '' ''
                 @ (if Message entry = [] then []
                    else ''msg='' @ valueText h (VString (Message entry)) @ '' '')
                 @ plain_fields h (prefixFieldClashes (Data entry)) (rendered_keys f ks)
                 @ [nl], None),
                after_Format (entry\<lparr>Data := (Data entry)(''prefix'' := p)\<rparr>)))
     \<and> ''prefix'' \<notin> set (rendered_keys f ks)"
proof -
  have k: "prefixFieldClashes ((Data entry)(''prefix'' := p)) k = prefixFieldClashes (Data entry) k"
    if "k \<in> set (rendered_keys f ks)" for k
  proof -
    have "k \<noteq> ''prefix''" using that prefix_notin_rendered_keys [of f ks] by auto
    then show ?thesis by (rule prefixFieldClashes_prefix_upd)
  qed
  have 1: "plain_fields h (prefixFieldClashes ((Data entry)(''prefix'' := p))) (rendered_keys f ks)
      = plain_fields h (prefixFieldClashes (Data entry)) (rendered_keys f ks)"
    using k by (rule plain_fields_cong)
  have 2: "fields_panic (prefixFieldClashes ((Data entry)(''prefix'' := p))) (rendered_keys f ks)
      = fields_panic (prefixFieldClashes (Data entry)) (rendered_keys f ks)"
    using k by (rule fields_panic_cong)
  have 3: "Format_panics h f (entry\<lparr>Data := (Data entry)(''prefix'' := p)\<rparr>) ks
      = Format_panics h f entry ks"
    using 2 by (simp add: Format_panics_rendered_keys)
  show ?thesis
    unfolding Format_plain [OF assms] 3
    using 1 by (simp add: plain_line_def after_Format_def prefix_notin_rendered_keys)
qed

text \<open>
  Claim C10 at the sample entry that has the field \<^verbatim>\<open>prefix\<close> and a message that begins
  with \<^verbatim>\<open>[worker]\<close>, with colors disabled and with colors neither disabled nor forced on a
  host without a terminal.
\<close>

theorem plain_output_ignores_prefix_witness:
  "\<not> isColored sample_host plain_config
   \<and> \<not> Format_panics sample_host plain_config entry_worker [''prefix'']
   \<and> Format sample_host plain_config entry_worker [''prefix'']
       = Inr ((''time='' @ [dquote] @ ''Jan  1 00:00:00'' @ [dquote] @ '' level=info msg=''
                 @ [dquote] @ ''[worker] started job'' @ [dquote] @ '' '' @ [nl], None),
              entry_worker)
   \<and> \<not> DisableColors default_config
   \<and> \<not> isColored sample_host default_config
   \<and> \<not> Format_panics sample_host default_config entry_worker [''prefix'']
   \<and> Format sample_host default_config entry_worker [''prefix'']
       = Inr ((''time='' @ [dquote] @ ''Jan  1 00:00:00'' @ [dquote] @ '' level=info msg=''
                 @ [dquote] @ ''[worker] started job'' @ [dquote] @ '' '' @ [nl], None),
              entry_worker)"
proof -
  have a: "\<not> isColored sample_host plain_config" by (rule plain_config_plain)
  have a': "\<not> isColored sample_host default_config" by (rule default_config_plain)
  have d: "\<not> DisableColors default_config" by (simp add: default_config_def)
  have b: "entry_worker\<lparr>Data := (Data entry_worker)(''prefix'' := Some (VString ''db''))\<rparr> = entry_worker"
    by (simp add: entry_worker_def)
  have c: "after_Format entry_worker = entry_worker"
    by (simp add: after_Format_def prefixFieldClashes_def entry_worker_def)
  have np: "\<not> Format_panics sample_host plain_config entry_worker [''prefix'']"
    "\<not> Format_panics sample_host default_config entry_worker [''prefix'']"
    by (simp_all add: Format_panics_def)
  have 1: "Format sample_host plain_config entry_worker [''prefix'']
       = Inr ((''time='' @ [dquote] @ ''Jan  1 00:00:00'' @ [dquote] @ '' level=info msg=''
                 @ [dquote] @ ''[worker] started job'' @ [dquote] @ '' '' @ [nl], None),
              entry_worker)"
    using np(1) plain_output_ignores_prefix [OF a, of entry_worker "Some (VString ''db'')" "[''prefix'']"]
    unfolding b c
    by (simp add: eval_plain eval_quote sample_host_def plain_config_def entry_worker_def)
  have 2: "Format sample_host default_config entry_worker [''prefix'']
       = Inr ((''time='' @ [dquote] @ ''Jan  1 00:00:00'' @ [dquote] @ '' level=info msg=''
                 @ [dquote] @ ''[worker] started job'' @ [dquote] @ '' '' @ [nl], None),
              entry_worker)"
    using np(2) plain_output_ignores_prefix [OF a', of entry_worker "Some (VString ''db'')" "[''prefix'']"]
    unfolding b c
    by (simp add: eval_plain eval_quote sample_host_def default_config_def entry_worker_def)
  show ?thesis using a a' d np 1 2 by simp
qed

end
